theory Spec2Isabelle
  imports Main
begin

section \<open>The orchestration script \<^verbatim>\<open>run.sh\<close>\<close>

subsection \<open>Shell semantics used by the script\<close>

text \<open>
  The script is a bash program run under \<^verbatim>\<open>set -e\<close> with \<^verbatim>\<open>trap cleanup EXIT\<close>. Its
  observable behaviour is the sequence of lines it prints and of commands it starts, and its
  exit status. Everything the script cannot decide itself comes from a \<open>world\<close>: which tools
  are on the path, how each started command ends (its exit status, or an interrupt signal
  arriving while it runs), and the process identifier of a background job. The outcome of a
  command may depend on everything that happened before it, so the world sees the trace so far.
  Every started command is assumed to end (with a status or by an interrupt).
\<close>

datatype cmd =
    NpmInstall              \<comment> \<open>\<^verbatim>\<open>npm install\<close>\<close>
  | NpmRunLint              \<comment> \<open>\<^verbatim>\<open>npm run lint\<close>\<close>
  | NpmTest                 \<comment> \<open>\<^verbatim>\<open>npm test\<close>\<close>
  | NpmStart                \<comment> \<open>\<^verbatim>\<open>npm start\<close>\<close>
  | DockerBuild             \<comment> \<open>\<^verbatim>\<open>docker build -t devops-portfolio-app .\<close>\<close>
  | DockerRun               \<comment> \<open>\<^verbatim>\<open>docker run -d -p 3000:3000 --name devops-portfolio-app devops-portfolio-app\<close>\<close>
  | ComposeUp               \<comment> \<open>\<^verbatim>\<open>docker-compose up -d\<close>\<close>
  | Sleep nat               \<comment> \<open>\<^verbatim>\<open>sleep n\<close>\<close>
  | Curl string             \<comment> \<open>\<^verbatim>\<open>curl -f -s url > /dev/null\<close>\<close>
  | Kill nat                \<comment> \<open>\<^verbatim>\<open>kill pid 2>/dev/null\<close>\<close>
  | ComposeDown             \<comment> \<open>\<^verbatim>\<open>docker-compose down 2>/dev/null\<close>\<close>
  | DockerStop              \<comment> \<open>\<^verbatim>\<open>docker stop devops-portfolio-app 2>/dev/null\<close>\<close>
  | DockerRm                \<comment> \<open>\<^verbatim>\<open>docker rm devops-portfolio-app 2>/dev/null\<close>\<close>
  | Wait                    \<comment> \<open>\<^verbatim>\<open>wait\<close>\<close>

datatype outcome = Exited nat | Interrupted

datatype event =
    Info string             \<comment> \<open>a line printed by \<^verbatim>\<open>print_status\<close>\<close>
  | Success string          \<comment> \<open>a line printed by \<^verbatim>\<open>print_success\<close>\<close>
  | Warning string          \<comment> \<open>a line printed by \<^verbatim>\<open>print_warning\<close>\<close>
  | Error string            \<comment> \<open>a line printed by \<^verbatim>\<open>print_error\<close>\<close>
  | Echo string             \<comment> \<open>a line printed by a plain \<^verbatim>\<open>echo\<close>\<close>
  | Checked string bool     \<comment> \<open>\<^verbatim>\<open>command -v tool\<close> and whether it found the tool\<close>
  | Ran cmd outcome         \<comment> \<open>a command run in the foreground, and how it ended\<close>
  | Spawned cmd nat         \<comment> \<open>a command started in the background, and its process id\<close>

record world =
  present :: "string \<Rightarrow> bool"
  outcome_of :: "event list \<Rightarrow> cmd \<Rightarrow> outcome"
  bg_pid :: "event list \<Rightarrow> nat"
  env_LOCAL_PID :: "nat option"
  script_name :: string

text \<open>
  The shell state: the trace of events so far, the global variable \<^verbatim>\<open>LOCAL_PID\<close> (unset or
  empty is \<open>None\<close>), the special parameter \<^verbatim>\<open>$!\<close>, and the array \<^verbatim>\<open>missing_tools\<close> that is local
  to \<^verbatim>\<open>check_prerequisites\<close>.
\<close>

record state =
  trace :: "event list"
  LOCAL_PID :: "nat option"
  last_bg :: "nat option"
  missing_tools :: "string list"

text \<open>
  How a command leaves control: \<open>Done n\<close> it completed with status \<open>n\<close>; \<open>Return n\<close> the
  enclosing function returns with status \<open>n\<close>; \<open>Exit n\<close> the shell exits with status \<open>n\<close>;
  \<open>Sigint\<close> the shell is terminated by an interrupt.
\<close>

datatype flow = Done nat | Return nat | Exit nat | Sigint

type_synonym sh = "state \<Rightarrow> flow \<times> state"

definition emit :: "event \<Rightarrow> state \<Rightarrow> state" where
  "emit e s = s\<lparr>trace := trace s @ [e]\<rparr>"

definition run :: "world \<Rightarrow> cmd \<Rightarrow> sh" where
  "run w c s =
     (let oc = outcome_of w (trace s) c in
      (case oc of Exited n \<Rightarrow> Done n | Interrupted \<Rightarrow> Sigint, emit (Ran c oc) s))"

definition background :: "world \<Rightarrow> cmd \<Rightarrow> sh" where
  \<comment> \<open>\<^verbatim>\<open>c &\<close>: the status is 0 and \<^verbatim>\<open>$!\<close> is the new job's process id\<close>
  "background w c s =
     (let p = bg_pid w (trace s) in (Done 0, (emit (Spawned c p) s)\<lparr>last_bg := Some p\<rparr>))"

definition errexit :: "sh \<Rightarrow> sh" where
  \<comment> \<open>a command at a place where \<^verbatim>\<open>set -e\<close> applies\<close>
  "errexit f s =
     (case f s of
        (Done n, s') \<Rightarrow> if n = 0 then (Done 0, s') else (Exit n, s')
      | r \<Rightarrow> r)"

fun body :: "sh list \<Rightarrow> sh" where
  \<comment> \<open>a list of commands, one after the other, under \<^verbatim>\<open>set -e\<close>\<close>
  "body [] s = (Done 0, s)"
| "body (f # fs) s =
     (case errexit f s of
        (Done n, s') \<Rightarrow> body fs s'
      | r \<Rightarrow> r)"

definition func :: "sh \<Rightarrow> sh" where
  \<comment> \<open>a function call: \<^verbatim>\<open>return n\<close> inside ends the call with status \<open>n\<close>\<close>
  "func f s = (case f s of (Return n, s') \<Rightarrow> (Done n, s') | r \<Rightarrow> r)"

definition if_then_else :: "sh \<Rightarrow> sh \<Rightarrow> sh \<Rightarrow> sh" where
  \<comment> \<open>\<^verbatim>\<open>if c; then t; else e; fi\<close>: \<^verbatim>\<open>set -e\<close> does not apply to the condition\<close>
  "if_then_else c t e s =
     (case c s of
        (Done n, s') \<Rightarrow> if n = 0 then t s' else e s'
      | r \<Rightarrow> r)"

definition if_then :: "sh \<Rightarrow> sh \<Rightarrow> sh" where
  "if_then c t = if_then_else c t (\<lambda>s. (Done 0, s))"

definition neg :: "sh \<Rightarrow> sh" where
  \<comment> \<open>\<^verbatim>\<open>! c\<close>\<close>
  "neg f s =
     (case f s of
        (Done n, s') \<Rightarrow> (Done (if n = 0 then 1 else 0), s')
      | r \<Rightarrow> r)"

definition or_true :: "sh \<Rightarrow> sh" where
  \<comment> \<open>\<^verbatim>\<open>c || true\<close>\<close>
  "or_true f s = (case f s of (Done n, s') \<Rightarrow> (Done 0, s') | r \<Rightarrow> r)"

definition wait_sh :: "world \<Rightarrow> sh" where
  \<comment> \<open>\<^verbatim>\<open>wait\<close> without arguments: waits for the background jobs; its status is 0\<close>
  "wait_sh w s =
     (let oc = outcome_of w (trace s) Wait in
      (case oc of Exited n \<Rightarrow> Done 0 | Interrupted \<Rightarrow> Sigint, emit (Ran Wait oc) s))"

definition exit_sh :: "nat \<Rightarrow> sh" where
  "exit_sh n s = (Exit n, s)"

definition return_sh :: "nat \<Rightarrow> sh" where
  "return_sh n s = (Return n, s)"

definition echo :: "string \<Rightarrow> sh" where
  "echo m s = (Done 0, emit (Echo m) s)"

subsection \<open>The functions of the script\<close>

definition print_status :: "string \<Rightarrow> sh" where
  "print_status m s = (Done 0, emit (Info m) s)"

definition print_success :: "string \<Rightarrow> sh" where
  "print_success m s = (Done 0, emit (Success m) s)"

definition print_warning :: "string \<Rightarrow> sh" where
  "print_warning m s = (Done 0, emit (Warning m) s)"

definition print_error :: "string \<Rightarrow> sh" where
  "print_error m s = (Done 0, emit (Error m) s)"

definition command_exists :: "world \<Rightarrow> string \<Rightarrow> sh" where
  "command_exists w t s =
     (Done (if present w t then 0 else 1), emit (Checked t (present w t)) s)"

definition join_words :: "string list \<Rightarrow> string" where
  \<comment> \<open>\<^verbatim>\<open>${a[*]}\<close>: the elements separated by one space\<close>
  "join_words ws = (case ws of [] \<Rightarrow> [] | x # xs \<Rightarrow> x @ concat (map (\<lambda>y. CHR '' '' # y) xs))"

definition add_missing :: "string \<Rightarrow> sh" where
  \<comment> \<open>\<^verbatim>\<open>missing_tools+=("t")\<close>\<close>
  "add_missing t s = (Done 0, s\<lparr>missing_tools := missing_tools s @ [t]\<rparr>)"

definition check_prerequisites :: "world \<Rightarrow> sh" where
  "check_prerequisites w = func (body
     [ print_status ''Checking prerequisites...'',
       (\<lambda>s. (Done 0, s\<lparr>missing_tools := []\<rparr>)),
       if_then (neg (command_exists w ''node'')) (body [add_missing ''node'']),
       if_then (neg (command_exists w ''npm'')) (body [add_missing ''npm'']),
       if_then (neg (command_exists w ''docker'')) (body [add_missing ''docker'']),
       if_then (neg (command_exists w ''docker-compose'')) (body [add_missing ''docker-compose'']),
       if_then (\<lambda>s. (Done (if length (missing_tools s) \<noteq> 0 then 0 else 1), s))
         (body
           [ (\<lambda>s. print_error (''Missing required tools: '' @ join_words (missing_tools s)) s),
             echo ''Please install the missing tools and run this script again.'',
             exit_sh 1 ]),
       print_success ''All prerequisites are met!'' ])"

definition install_dependencies :: "world \<Rightarrow> sh" where
  "install_dependencies w = func (body
     [ print_status ''Installing Node.js dependencies...'',
       run w NpmInstall,
       print_success ''Dependencies installed successfully!'' ])"

definition run_tests :: "world \<Rightarrow> sh" where
  "run_tests w = func (body
     [ print_status ''Running tests...'',
       run w NpmRunLint,
       run w NpmTest,
       print_success ''All tests passed!'' ])"

definition build_docker :: "world \<Rightarrow> sh" where
  "build_docker w = func (body
     [ print_status ''Building Docker image...'',
       run w DockerBuild,
       print_success ''Docker image built successfully!'' ])"

definition start_app :: "world \<Rightarrow> string \<Rightarrow> sh" where
  "start_app w mode = func
     (if mode = ''local'' then body
        [ print_status ''Starting application locally...'',
          background w NpmStart,
          (\<lambda>s. (Done 0, s\<lparr>LOCAL_PID := last_bg s\<rparr>)),
          run w (Sleep 3) ]
      else if mode = ''docker'' then body
        [ print_status ''Starting application with Docker...'',
          run w DockerRun,
          run w (Sleep 3) ]
      else if mode = ''compose'' then body
        [ print_status ''Starting application with Docker Compose...'',
          run w ComposeUp,
          run w (Sleep 5) ]
      else body
        [ print_error (''Invalid mode: '' @ mode),
          exit_sh 1 ])"

definition test_app :: "world \<Rightarrow> sh" where
  "test_app w = func (body
     [ print_status ''Testing application endpoints...'',
       if_then_else (run w (Curl ''http://localhost:3000/health''))
         (body [print_success ''Health endpoint is working!''])
         (body [print_error ''Health endpoint failed!'', return_sh 1]),
       if_then_else (run w (Curl ''http://localhost:3000''))
         (body [print_success ''Main page is accessible!''])
         (body [print_error ''Main page failed!'', return_sh 1]),
       if_then_else (run w (Curl ''http://localhost:3000/api/info''))
         (body [print_success ''API endpoint is working!''])
         (body [print_error ''API endpoint failed!'', return_sh 1]),
       print_success ''All endpoints are working correctly!'' ])"

definition cleanup :: "world \<Rightarrow> sh" where
  "cleanup w = func (body
     [ print_status ''Cleaning up...'',
       if_then (\<lambda>s. (Done (if LOCAL_PID s \<noteq> None then 0 else 1), s))
         (body [(\<lambda>s. or_true (run w (Kill (the (LOCAL_PID s)))) s)]),
       or_true (run w ComposeDown),
       or_true (run w DockerStop),
       or_true (run w DockerRm),
       print_success ''Cleanup completed!'' ])"

definition show_help :: "world \<Rightarrow> sh" where
  "show_help w = func (body
     [ echo ''DevOps Portfolio Project - Setup and Run Script'',
       echo '''',
       echo (''Usage: '' @ script_name w @ '' [COMMAND]''),
       echo '''',
       echo ''Commands:'',
       echo ''  setup          - Install dependencies and run tests'',
       echo ''  start-local    - Start application locally with Node.js'',
       echo ''  start-docker   - Start application with Docker'',
       echo ''  start-compose  - Start application with Docker Compose'',
       echo ''  test           - Run all tests (lint + unit tests)'',
       echo ''  build          - Build Docker image'',
       echo ''  clean          - Clean up running containers and processes'',
       echo ''  full           - Run full pipeline (setup + build + test + start)'',
       echo ''  help           - Show this help message'',
       echo '''',
       echo ''Examples:'',
       echo (''  '' @ script_name w @ '' setup          # Install dependencies and run tests''),
       echo (''  '' @ script_name w @ '' start-local    # Start the app locally''),
       echo (''  '' @ script_name w @ '' full           # Complete setup and start''),
       echo '''' ])"

definition run_full_pipeline :: "world \<Rightarrow> sh" where
  "run_full_pipeline w = func (body
     [ print_status ''Running full DevOps pipeline...'',
       check_prerequisites w,
       install_dependencies w,
       run_tests w,
       build_docker w,
       start_app w ''compose'',
       test_app w,
       print_success ''Full pipeline completed successfully!'',
       echo '''',
       echo ''Application is running at: http://localhost:3000'',
       echo ''Health check: http://localhost:3000/health'',
       echo ''API info: http://localhost:3000/api/info'',
       echo '''',
       echo (''To stop the application, run: '' @ script_name w @ '' clean'') ])"

subsection \<open>The dispatcher and the exit trap\<close>

definition first_arg :: "string list \<Rightarrow> string" where
  \<comment> \<open>\<^verbatim>\<open>$1\<close>: empty when there is no argument\<close>
  "first_arg args = (case args of [] \<Rightarrow> [] | a # _ \<Rightarrow> a)"

definition selected :: "string list \<Rightarrow> string" where
  \<comment> \<open>\<^verbatim>\<open>${1:-help}\<close>: \<^verbatim>\<open>help\<close> when \<^verbatim>\<open>$1\<close> is unset or empty\<close>
  "selected args = (if first_arg args = [] then ''help'' else first_arg args)"

definition main :: "world \<Rightarrow> string list \<Rightarrow> sh" where
  "main w args =
     (let c = selected args in
      if c = ''setup'' then body
        [ check_prerequisites w,
          install_dependencies w,
          run_tests w,
          print_success ''Setup completed!'' ]
      else if c = ''start-local'' then body
        [ check_prerequisites w,
          start_app w ''local'',
          test_app w,
          print_success ''Application is running locally at http://localhost:3000'',
          echo ''Press Ctrl+C to stop...'',
          wait_sh w ]
      else if c = ''start-docker'' then body
        [ check_prerequisites w,
          build_docker w,
          start_app w ''docker'',
          test_app w,
          print_success ''Application is running with Docker at http://localhost:3000'',
          echo ''To stop: docker stop devops-portfolio-app'' ]
      else if c = ''start-compose'' then body
        [ check_prerequisites w,
          start_app w ''compose'',
          test_app w,
          print_success ''Application is running with Docker Compose at http://localhost:3000'',
          echo ''To stop: docker-compose down'' ]
      else if c = ''test'' then body
        [ check_prerequisites w,
          install_dependencies w,
          run_tests w ]
      else if c = ''build'' then body
        [ check_prerequisites w,
          build_docker w ]
      else if c = ''clean'' then body
        [ cleanup w ]
      else if c = ''full'' then body
        [ run_full_pipeline w ]
      else if c = ''help'' \<or> c = ''--help'' \<or> c = ''-h'' then body
        [ show_help w ]
      else body
        [ print_error (''Unknown command: '' @ first_arg args),
          show_help w,
          exit_sh 1 ])"

definition initial :: "world \<Rightarrow> state" where
  "initial w = \<lparr>trace = [], LOCAL_PID = env_LOCAL_PID w, last_bg = None, missing_tools = []\<rparr>"

definition script :: "world \<Rightarrow> string list \<Rightarrow> flow \<times> state" where
  \<comment> \<open>\<^verbatim>\<open>trap cleanup EXIT\<close>: however the main part ends, \<^verbatim>\<open>cleanup\<close> runs, and the exit
      status stays that of the main part; an interrupt during the trap ends the shell\<close>
  "script w args =
     (case main w args (initial w) of
        (r, s) \<Rightarrow>
          (case cleanup w s of
             (Sigint, s') \<Rightarrow> (Sigint, s')
           | (_, s') \<Rightarrow> (r, s')))"

definition exit_status :: "flow \<Rightarrow> nat" where
  \<comment> \<open>the status the caller of the script sees; 130 is 128 + SIGINT\<close>
  "exit_status r = (case r of Done n \<Rightarrow> n | Return n \<Rightarrow> n | Exit n \<Rightarrow> n | Sigint \<Rightarrow> 130)"

section \<open>The web application \<^verbatim>\<open>app.js\<close>\<close>

subsection \<open>Requests, responses and the host\<close>

text \<open>
  The application is an Express stack: three middlewares, three \<^verbatim>\<open>GET\<close> routes, a catch-all
  that answers 404 and an error handler that answers 500. A request is reduced to what the
  stack looks at: its method, the path of its URL, what \<^verbatim>\<open>express.json()\<close> makes of its
  body, and whether its conditional headers (\<^verbatim>\<open>If-None-Match\<close>, \<^verbatim>\<open>If-Modified-Since\<close>) make an
  answer with a given body fresh, which is what \<^verbatim>\<open>req.fresh\<close> tests. A response is its status
  code and its body; the headers of the response are not modelled, so \<^verbatim>\<open>helmet()\<close>, which only
  sets headers, passes every request on.
\<close>

datatype http_method = GET | HEAD | POST | PUT | DELETE | PATCH | OPTIONS

datatype body_kind =
    NoBody        \<comment> \<open>no body, or a body that is not declared as JSON: the parser skips it\<close>
  | GoodJson      \<comment> \<open>a JSON body that parses\<close>
  | BadJson       \<comment> \<open>a JSON body that does not parse: the parser raises an error\<close>

datatype payload =
    Json "(string \<times> string) list"   \<comment> \<open>\<^verbatim>\<open>res.json\<close> of an object whose values are strings\<close>
  | File string                     \<comment> \<open>the content of a file, sent by \<^verbatim>\<open>res.sendFile\<close>\<close>
  | Html string                     \<comment> \<open>an error page written by Express itself\<close>
  | NoContent                       \<comment> \<open>no body\<close>

record request =
  req_method :: http_method
  req_path :: string
  req_body :: body_kind
  req_fresh :: "payload \<Rightarrow> bool"

record response =
  status_code :: nat
  payload :: payload

text \<open>What a middleware or a handler does: it answers, passes on, or passes an error on.\<close>

datatype outcome_mw = Respond response | Next | NextError

text \<open>
  The host is everything the application reads from outside: the environment variables, the
  time value of \<^verbatim>\<open>new Date()\<close> at the time of the request (milliseconds since the beginning
  of 1970, UTC), the host name, what
  \<^verbatim>\<open>express.static('public')\<close> does with a request (it depends on the files under
  \<^verbatim>\<open>public\<close>), and whether \<^verbatim>\<open>public/index.html\<close> can be sent.
\<close>

record host =
  env :: "string \<Rightarrow> string option"
  now_ms :: int
  os_hostname :: string
  dirname :: string
  serve_static :: "request \<Rightarrow> outcome_mw"
  index_readable :: bool

definition or_default :: "string option \<Rightarrow> string \<Rightarrow> string" where
  \<comment> \<open>\<^verbatim>\<open>v || d\<close> for a string or \<^verbatim>\<open>undefined\<close>: the empty string is falsy\<close>
  "or_default v d = (case v of None \<Rightarrow> d | Some s \<Rightarrow> if s = [] then d else s)"

subsection \<open>\<^verbatim>\<open>Date.prototype.toISOString\<close>\<close>

text \<open>
  The string ECMAScript gives for a time value: \<^verbatim>\<open>YYYY-MM-DDTHH:mm:ss.sssZ\<close> in UTC, the year
  written with a sign and six digits when it is not between 0 and 9999. A day number is
  turned into a date of the Gregorian calendar by counting from the first of March of year 0:
  eras of 400 years, centuries, cycles of four years and years, the leap day being the last
  day of each. Time values of ECMAScript stay below \<open>8.64 \<times> 10\<^sup>1\<^sup>5\<close> in absolute value, for
  which the year has no more than six digits.
\<close>

definition digit_char :: "nat \<Rightarrow> char" where
  "digit_char n = ''0123456789'' ! (n mod 10)"

fun pad :: "nat \<Rightarrow> nat \<Rightarrow> string" where
  \<comment> \<open>the last \<open>k\<close> decimal digits of \<open>n\<close>\<close>
  "pad 0 n = []"
| "pad (Suc k) n = digit_char (n div 10 ^ k) # pad k n"

fun month_day :: "nat list \<Rightarrow> nat \<Rightarrow> nat \<Rightarrow> nat \<times> nat" where
  \<comment> \<open>the month and the day in it, from the lengths of the months and the day of the year\<close>
  "month_day [] m d = (m, d)"
| "month_day (l # ls) m d = (if d < l then (m, d) else month_day ls (Suc m) (d - l))"

definition months_from_march :: "nat list" where
  "months_from_march = [31, 30, 31, 30, 31, 31, 30, 31, 30, 31, 31, 29]"

definition civil :: "int \<Rightarrow> int \<times> nat \<times> nat" where
  \<comment> \<open>year, month (1 to 12) and day (1 to 31) of a day number counted from 1970-01-01\<close>
  "civil day =
     (let z = day + 719468;
          era = z div 146097;
          doe = nat (z mod 146097);
          c = min 3 (doe div 36524);
          doc = doe - c * 36524;
          q = min 24 (doc div 1461);
          doq = doc - q * 1461;
          yq = min 3 (doq div 365);
          doy = doq - yq * 365;
          (mp, d) = month_day months_from_march 0 doy;
          y = era * 400 + int (c * 100 + q * 4 + yq)
      in (if mp < 10 then y else y + 1, if mp < 10 then mp + 3 else mp - 9, d + 1))"

definition year_string :: "int \<Rightarrow> string" where
  "year_string y =
     (if 0 \<le> y \<and> y \<le> 9999 then pad 4 (nat y)
      else (if y < 0 then CHR ''-'' else CHR ''+'') # pad 6 (nat \<bar>y\<bar>))"

definition to_iso_string :: "int \<Rightarrow> string" where
  "to_iso_string t =
     (let (y, m, d) = civil (t div 86400000);
          ms = nat (t mod 86400000)
      in year_string y @ ''-'' @ pad 2 m @ ''-'' @ pad 2 d @ ''T'' @
         pad 2 (ms div 3600000) @ '':'' @ pad 2 (ms div 60000 mod 60) @ '':'' @
         pad 2 (ms div 1000 mod 60) @ ''.'' @ pad 3 (ms mod 1000) @ ''Z'')"

subsection \<open>Matching a route\<close>

text \<open>
  Express compares the path of the request with the path of a route ignoring the case of
  ASCII letters and one trailing slash (its defaults; the application sets neither
  \<^verbatim>\<open>case sensitive routing\<close> nor \<^verbatim>\<open>strict routing\<close>). A route registered with \<^verbatim>\<open>app.get\<close>
  also answers \<^verbatim>\<open>HEAD\<close> requests.
\<close>

definition lower_char :: "char \<Rightarrow> char" where
  "lower_char c =
     (case map_of (zip ''ABCDEFGHIJKLMNOPQRSTUVWXYZ'' ''abcdefghijklmnopqrstuvwxyz'') c of
        None \<Rightarrow> c
      | Some d \<Rightarrow> d)"

definition matches :: "string \<Rightarrow> string \<Rightarrow> bool" where
  "matches pat p =
     (let core = (if pat \<noteq> [] \<and> last pat = CHR ''/'' then butlast pat else pat);
          lp = map lower_char p
      in lp = core \<or> lp = core @ ''/'')"

definition handles_get :: "http_method \<Rightarrow> bool" where
  "handles_get m = (m = GET \<or> m = HEAD)"

subsection \<open>The stack\<close>

definition for_method :: "request \<Rightarrow> response \<Rightarrow> response" where
  \<comment> \<open>the answer to a \<^verbatim>\<open>HEAD\<close> request is sent without its body\<close>
  "for_method req r = (if req_method req = HEAD then r\<lparr>payload := NoContent\<rparr> else r)"

datatype layer =
    Use "request \<Rightarrow> outcome_mw"              \<comment> \<open>\<^verbatim>\<open>app.use(f)\<close>, \<open>f\<close> of two or three arguments\<close>
  | Get string "request \<Rightarrow> outcome_mw"       \<comment> \<open>\<^verbatim>\<open>app.get(path, f)\<close>\<close>
  | UseError "request \<Rightarrow> outcome_mw"         \<comment> \<open>\<^verbatim>\<open>app.use(f)\<close>, \<open>f\<close> of four arguments\<close>

fun handle :: "layer list \<Rightarrow> bool \<Rightarrow> request \<Rightarrow> response" where
  \<comment> \<open>the layers in order; the flag says that an error is being passed on. At the end of
      the stack Express answers itself, with an HTML page (without it for \<^verbatim>\<open>HEAD\<close>).\<close>
  "handle [] err req =
     for_method req
       (if err then \<lparr>status_code = 500, payload = Html ''Internal Server Error''\<rparr>
        else \<lparr>status_code = 404, payload = Html ''Not Found''\<rparr>)"
| "handle (Use f # ls) err req =
     (if err then handle ls err req
      else (case f req of
              Respond r \<Rightarrow> r
            | Next \<Rightarrow> handle ls False req
            | NextError \<Rightarrow> handle ls True req))"
| "handle (Get pat f # ls) err req =
     (if err \<or> \<not> (handles_get (req_method req) \<and> matches pat (req_path req))
      then handle ls err req
      else (case f req of
              Respond r \<Rightarrow> r
            | Next \<Rightarrow> handle ls False req
            | NextError \<Rightarrow> handle ls True req))"
| "handle (UseError f # ls) err req =
     (if err then (case f req of
                     Respond r \<Rightarrow> r
                   | Next \<Rightarrow> handle ls False req
                   | NextError \<Rightarrow> handle ls True req)
      else handle ls err req)"

definition res_send :: "request \<Rightarrow> response \<Rightarrow> response" where
  \<comment> \<open>\<^verbatim>\<open>res.send\<close>, which \<^verbatim>\<open>res.json\<close> ends in: an answer with a status from 200 to 299 (or
      304) to a \<^verbatim>\<open>GET\<close> or \<^verbatim>\<open>HEAD\<close> request that is fresh becomes 304 without a body\<close>
  "res_send req r =
     (if handles_get (req_method req) \<and>
         (200 \<le> status_code r \<and> status_code r < 300 \<or> status_code r = 304) \<and>
         req_fresh req (payload r)
      then for_method req \<lparr>status_code = 304, payload = NoContent\<rparr>
      else for_method req r)"

definition helmet :: "request \<Rightarrow> outcome_mw" where
  "helmet req = Next"

definition express_json :: "request \<Rightarrow> outcome_mw" where
  "express_json req = (case req_body req of BadJson \<Rightarrow> NextError | _ \<Rightarrow> Next)"

definition root_handler :: "host \<Rightarrow> request \<Rightarrow> outcome_mw" where
  \<comment> \<open>\<^verbatim>\<open>res.sendFile\<close> passes an error on when the file cannot be read; it answers a fresh
      request as \<^verbatim>\<open>res.send\<close> does\<close>
  "root_handler h req =
     (if index_readable h
      then Respond (res_send req
             \<lparr>status_code = 200, payload = File (dirname h @ ''/public/index.html'')\<rparr>)
      else NextError)"

definition health_handler :: "host \<Rightarrow> request \<Rightarrow> outcome_mw" where
  "health_handler h req =
     Respond (res_send req \<lparr>status_code = 200,
       payload = Json
         [(''status'', ''healthy''),
          (''timestamp'', to_iso_string (now_ms h)),
          (''version'', or_default (env h ''npm_package_version'') ''1.0.0'')]\<rparr>)"

definition info_handler :: "host \<Rightarrow> request \<Rightarrow> outcome_mw" where
  "info_handler h req =
     Respond (res_send req \<lparr>status_code = 200,
       payload = Json
         [(''message'', ''DevOps Portfolio Application''),
          (''environment'', or_default (env h ''NODE_ENV'') ''development''),
          (''version'', or_default (env h ''npm_package_version'') ''1.0.0''),
          (''hostname'', os_hostname h)]\<rparr>)"

definition not_found :: "request \<Rightarrow> outcome_mw" where
  "not_found req =
     Respond (res_send req
       \<lparr>status_code = 404, payload = Json [(''error'', ''Route not found'')]\<rparr>)"

definition error_handler :: "request \<Rightarrow> outcome_mw" where
  "error_handler req =
     Respond (res_send req
       \<lparr>status_code = 500, payload = Json [(''error'', ''Something went wrong!'')]\<rparr>)"

definition stack :: "host \<Rightarrow> layer list" where
  "stack h =
     [ Use helmet,
       Use (serve_static h),
       Use express_json,
       Get ''/'' (root_handler h),
       Get ''/health'' (health_handler h),
       Get ''/api/info'' (info_handler h),
       Use not_found,
       UseError error_handler ]"

definition app :: "host \<Rightarrow> request \<Rightarrow> response" where
  "app h req = handle (stack h) False req"

subsection \<open>Observations on a response\<close>

definition json_field :: "string \<Rightarrow> response \<Rightarrow> string option" where
  "json_field k r = (case payload r of Json kvs \<Rightarrow> map_of kvs k | _ \<Rightarrow> None)"

text \<open>
  The shape of a date and time of ISO 8601 as \<^verbatim>\<open>toISOString\<close> writes it, read from left to
  right: a year of four digits, or of six digits after a sign; a month from 01 to 12; a day
  from 01 to 31; \<^verbatim>\<open>T\<close>; an hour from 00 to 23; minutes and seconds from 00 to 59; three digits
  of milliseconds; \<^verbatim>\<open>Z\<close>.
\<close>

definition digit_value :: "char \<Rightarrow> nat option" where
  "digit_value c = map_of (zip ''0123456789'' [0, 1, 2, 3, 4, 5, 6, 7, 8, 9]) c"

fun number :: "nat \<Rightarrow> string \<Rightarrow> (nat \<times> string) option" where
  \<comment> \<open>reads exactly \<open>k\<close> digits: their value and the rest of the string\<close>
  "number 0 s = Some (0, s)"
| "number (Suc k) [] = None"
| "number (Suc k) (c # s) =
     (case digit_value c of
        None \<Rightarrow> None
      | Some d \<Rightarrow>
          (case number k s of
             None \<Rightarrow> None
           | Some (n, r) \<Rightarrow> Some (d * 10 ^ k + n, r)))"

definition ranged :: "nat \<Rightarrow> nat \<Rightarrow> nat \<Rightarrow> string \<Rightarrow> string option" where
  \<comment> \<open>reads \<open>k\<close> digits whose value lies between \<open>lo\<close> and \<open>hi\<close>\<close>
  "ranged k lo hi s =
     (case number k s of
        None \<Rightarrow> None
      | Some (n, r) \<Rightarrow> if lo \<le> n \<and> n \<le> hi then Some r else None)"

definition lit :: "char \<Rightarrow> string \<Rightarrow> string option" where
  \<comment> \<open>reads one given character\<close>
  "lit c s = (case s of [] \<Rightarrow> None | x # r \<Rightarrow> if x = c then Some r else None)"

definition year_part :: "string \<Rightarrow> string option" where
  "year_part s =
     (case s of
        [] \<Rightarrow> None
      | c # r \<Rightarrow>
          if c = CHR ''+'' \<or> c = CHR ''-'' then ranged 6 0 999999 r else ranged 4 0 9999 s)"

definition is_iso8601 :: "string \<Rightarrow> bool" where
  "is_iso8601 s =
     (Option.bind (Option.bind (Option.bind (Option.bind (Option.bind (Option.bind
      (Option.bind (Option.bind (Option.bind (Option.bind (Option.bind (Option.bind
      (Option.bind (year_part s)
        (lit CHR ''-'')) (ranged 2 1 12))
        (lit CHR ''-'')) (ranged 2 1 31))
        (lit CHR ''T'')) (ranged 2 0 23))
        (lit CHR '':'')) (ranged 2 0 59))
        (lit CHR '':'')) (ranged 2 0 59))
        (lit CHR ''.'')) (ranged 3 0 999))
        (lit CHR ''Z'') = Some [])"

definition is_digit :: "char \<Rightarrow> bool" where
  "is_digit c = (c \<in> set ''0123456789'')"

definition is_semver :: "string \<Rightarrow> bool" where
  \<comment> \<open>the shape \<^verbatim>\<open>MAJOR.MINOR.PATCH\<close> of decimal numbers, with an optional suffix that starts
      with \<^verbatim>\<open>-\<close> or \<^verbatim>\<open>+\<close>\<close>
  "is_semver s =
     (let a = takeWhile is_digit s; r1 = dropWhile is_digit s in
      a \<noteq> [] \<and> r1 \<noteq> [] \<and> hd r1 = CHR ''.'' \<and>
      (let b = takeWhile is_digit (tl r1); r2 = dropWhile is_digit (tl r1) in
       b \<noteq> [] \<and> r2 \<noteq> [] \<and> hd r2 = CHR ''.'' \<and>
       (let c = takeWhile is_digit (tl r2); r3 = dropWhile is_digit (tl r2) in
        c \<noteq> [] \<and> (r3 = [] \<or> hd r3 = CHR ''-'' \<or> hd r3 = CHR ''+''))))"

subsection \<open>Concrete hosts and requests\<close>

definition host_plain :: host where
  \<comment> \<open>no environment variable is set, nothing is served from \<^verbatim>\<open>public\<close> but the index page\<close>
  "host_plain = \<lparr>env = (\<lambda>k. None), now_ms = 1707129000000,
     os_hostname = ''devbox'', dirname = ''/app'', serve_static = (\<lambda>req. Next),
     index_readable = True\<rparr>"

definition host_banana :: host where
  \<comment> \<open>as \<open>host_plain\<close>, started with \<^verbatim>\<open>npm_package_version=banana\<close>\<close>
  "host_banana = host_plain\<lparr>env := (\<lambda>k. if k = ''npm_package_version'' then Some ''banana'' else None)\<rparr>"

definition get_health :: request where
  "get_health = \<lparr>req_method = GET, req_path = ''/health'', req_body = NoBody,
     req_fresh = (\<lambda>b. False)\<rparr>"

definition get_health_if_none_match :: request where
  \<comment> \<open>\<^verbatim>\<open>GET /health\<close> with the header \<^verbatim>\<open>If-None-Match: *\<close>, for which every answer is fresh\<close>
  "get_health_if_none_match = \<lparr>req_method = GET, req_path = ''/health'', req_body = NoBody,
     req_fresh = (\<lambda>b. True)\<rparr>"

definition get_health_bad_body :: request where
  "get_health_bad_body = \<lparr>req_method = GET, req_path = ''/health'', req_body = BadJson,
     req_fresh = (\<lambda>b. False)\<rparr>"

definition get_nonexistent :: request where
  "get_nonexistent = \<lparr>req_method = GET, req_path = ''/nonexistent'', req_body = NoBody,
     req_fresh = (\<lambda>b. False)\<rparr>"

definition post_nonexistent_bad_body :: request where
  "post_nonexistent_bad_body =
     \<lparr>req_method = POST, req_path = ''/nonexistent'', req_body = BadJson,
     req_fresh = (\<lambda>b. False)\<rparr>"

subsection \<open>Observations on a run of the script\<close>

text \<open>
  Each function of the script that performs a step of the workflow prints one fixed status
  line when it is entered, and no other place prints that line. The steps a run performed, in
  order, are therefore read off the trace.
\<close>

datatype step = CheckPrerequisites | InstallDependencies | RunTests | BuildImage
  | StartLocal | StartDocker | StartCompose | SmokeTest | Cleanup

fun step_of :: "event \<Rightarrow> step option" where
  "step_of (Info m) =
     (if m = ''Checking prerequisites...'' then Some CheckPrerequisites
      else if m = ''Installing Node.js dependencies...'' then Some InstallDependencies
      else if m = ''Running tests...'' then Some RunTests
      else if m = ''Building Docker image...'' then Some BuildImage
      else if m = ''Starting application locally...'' then Some StartLocal
      else if m = ''Starting application with Docker...'' then Some StartDocker
      else if m = ''Starting application with Docker Compose...'' then Some StartCompose
      else if m = ''Testing application endpoints...'' then Some SmokeTest
      else if m = ''Cleaning up...'' then Some Cleanup
      else None)"
| "step_of e = None"

fun steps_of :: "event list \<Rightarrow> step list" where
  "steps_of [] = []"
| "steps_of (e # tr) = (case step_of e of None \<Rightarrow> steps_of tr | Some x \<Rightarrow> x # steps_of tr)"

definition cleanups :: "event list \<Rightarrow> nat" where
  \<comment> \<open>how many times \<^verbatim>\<open>cleanup\<close> was entered\<close>
  "cleanups tr = count_list (steps_of tr) Cleanup"


text \<open>
  The commands whose exit status the script discards: those of \<^verbatim>\<open>cleanup\<close>, which are
  followed by \<^verbatim>\<open>|| true\<close>, and \<^verbatim>\<open>wait\<close>. An event is a failure when a tool is missing, when
  a command whose status counts ends with a non-zero status, or when an interrupt arrives.
\<close>

fun status_ignored :: "cmd \<Rightarrow> bool" where
  "status_ignored (Kill p) = True"
| "status_ignored ComposeDown = True"
| "status_ignored DockerStop = True"
| "status_ignored DockerRm = True"
| "status_ignored Wait = True"
| "status_ignored c = False"

fun failed :: "event \<Rightarrow> bool" where
  "failed (Ran c oc) = (oc = Interrupted \<or> (oc \<noteq> Exited 0 \<and> \<not> status_ignored c))"
| "failed (Checked t b) = (\<not> b)"
| "failed e = False"

text \<open>
  The two ways an event is a failure: a step fails (a tool is missing, or a command whose
  status counts ends with a non-zero status), or an interrupt arrives while a command runs.
\<close>

fun interrupted :: "event \<Rightarrow> bool" where
  "interrupted (Ran c oc) = (oc = Interrupted)"
| "interrupted e = False"

fun step_failed :: "event \<Rightarrow> bool" where
  "step_failed (Ran c oc) = (case oc of Exited n \<Rightarrow> n \<noteq> 0 \<and> \<not> status_ignored c | Interrupted \<Rightarrow> False)"
| "step_failed (Checked t b) = (\<not> b)"
| "step_failed e = False"

fun spawned :: "event list \<Rightarrow> nat list" where
  \<comment> \<open>the process ids of the background jobs started, in order\<close>
  "spawned [] = []"
| "spawned (Spawned c p # tr) = p # spawned tr"
| "spawned (e # tr) = spawned tr"



fun probes :: "event list \<Rightarrow> string list" where
  \<comment> \<open>the URLs probed with \<^verbatim>\<open>curl\<close>, in order\<close>
  "probes [] = []"
| "probes (Ran (Curl u) oc # tr) = u # probes tr"
| "probes (e # tr) = probes tr"

fun errors :: "event list \<Rightarrow> string list" where
  \<comment> \<open>the error lines printed, in order\<close>
  "errors [] = []"
| "errors (Error m # tr) = m # errors tr"
| "errors (e # tr) = errors tr"

definition url_root :: string where "url_root = ''http://localhost:3000''"

definition url_health :: string where "url_health = ''http://localhost:3000/health''"

definition url_info :: string where "url_info = ''http://localhost:3000/api/info''"

text \<open>
  What a run did, in order: the steps it entered, the commands it ran in the foreground and
  the commands it started in the background. The lines it printed are left out.
\<close>

datatype action = Enter step | Cmd cmd | Bg cmd

fun actions_of :: "event list \<Rightarrow> action list" where
  "actions_of [] = []"
| "actions_of (Ran c oc # tr) = Cmd c # actions_of tr"
| "actions_of (Spawned c p # tr) = Bg c # actions_of tr"
| "actions_of (e # tr) = (case step_of e of None \<Rightarrow> actions_of tr | Some x \<Rightarrow> Enter x # actions_of tr)"




definition after_health :: "state \<Rightarrow> event list" where
  \<comment> \<open>the trace of \<^verbatim>\<open>test_app\<close> once the health probe has succeeded\<close>
  "after_health s = trace s @ [Info ''Testing application endpoints...'',
     Ran (Curl url_health) (Exited 0), Success ''Health endpoint is working!'']"

definition after_root :: "state \<Rightarrow> event list" where
  \<comment> \<open>the trace of \<^verbatim>\<open>test_app\<close> once the probe of the main page has succeeded too\<close>
  "after_root s = after_health s @
     [Ran (Curl url_root) (Exited 0), Success ''Main page is accessible!'']"

definition required_tools :: "string list" where
  "required_tools = [''node'', ''npm'', ''docker'', ''docker-compose'']"

definition absent_tools :: "world \<Rightarrow> string list" where
  "absent_tools w = filter (\<lambda>t. \<not> present w t) required_tools"

definition pipeline :: "step list" where
  "pipeline =
     [CheckPrerequisites, InstallDependencies, RunTests, BuildImage, StartCompose, SmokeTest]"

definition plan :: "string \<Rightarrow> step list" where
  \<comment> \<open>the steps each command of the dispatcher performs when none fails\<close>
  "plan c =
     (if c = ''setup'' then [CheckPrerequisites, InstallDependencies, RunTests]
      else if c = ''start-local'' then [CheckPrerequisites, StartLocal, SmokeTest]
      else if c = ''start-docker'' then [CheckPrerequisites, BuildImage, StartDocker, SmokeTest]
      else if c = ''start-compose'' then [CheckPrerequisites, StartCompose, SmokeTest]
      else if c = ''test'' then [CheckPrerequisites, InstallDependencies, RunTests]
      else if c = ''build'' then [CheckPrerequisites, BuildImage]
      else if c = ''clean'' then [Cleanup]
      else if c = ''full'' then pipeline
      else [])"

definition recognized :: "string \<Rightarrow> bool" where
  "recognized c = (c \<in> set [''setup'', ''start-local'', ''start-docker'', ''start-compose'',
     ''test'', ''build'', ''clean'', ''full'', ''help'', ''--help'', ''-h''])"

text \<open>The help text, line by line, with the name of the script where it is printed.\<close>

definition help_lines :: "world \<Rightarrow> string list" where
  "help_lines w =
     [ ''DevOps Portfolio Project - Setup and Run Script'',
       '''',
       ''Usage: '' @ script_name w @ '' [COMMAND]'',
       '''',
       ''Commands:'',
       ''  setup          - Install dependencies and run tests'',
       ''  start-local    - Start application locally with Node.js'',
       ''  start-docker   - Start application with Docker'',
       ''  start-compose  - Start application with Docker Compose'',
       ''  test           - Run all tests (lint + unit tests)'',
       ''  build          - Build Docker image'',
       ''  clean          - Clean up running containers and processes'',
       ''  full           - Run full pipeline (setup + build + test + start)'',
       ''  help           - Show this help message'',
       '''',
       ''Examples:'',
       ''  '' @ script_name w @ '' setup          # Install dependencies and run tests'',
       ''  '' @ script_name w @ '' start-local    # Start the app locally'',
       ''  '' @ script_name w @ '' full           # Complete setup and start'',
       '''' ]"

definition help_text :: "world \<Rightarrow> event list" where
  "help_text w = map Echo (help_lines w)"

text \<open>
  Modelled from the specification: the commands it enumerates as the catalogue that \<^verbatim>\<open>help\<close>
  prints. A line of output describes a command when it starts with the name of the command,
  indented by two spaces and followed by a space.
\<close>

definition spec_catalogue :: "string list" where
  "spec_catalogue = [''setup'', ''start-local'', ''start-docker'', ''start-compose'', ''test'',
     ''build'', ''clean'', ''full'', ''help'']"

fun describes :: "string \<Rightarrow> event \<Rightarrow> bool" where
  "describes c (Echo l) = (take (length c + 3) l = ''  '' @ c @ '' '')"
| "describes c e = False"


subsection \<open>Summaries of commands\<close>

text \<open>
  A command that is expected to perform the steps \<open>xs\<close> \<^emph>\<open>runs\<close> them when it only appends
  events to the trace and these events are summarised as follows: one background job is
  started per local start; \<^verbatim>\<open>LOCAL_PID\<close> holds the last job started, if any; when the command
  ends with status 0 it performed exactly \<open>xs\<close> and nothing failed; otherwise it ends with a
  non-zero status or by an interrupt, it performed a prefix of \<open>xs\<close>, a failure is in the
  trace, and no step was entered after the first failure.
\<close>

fun bad :: "flow \<Rightarrow> bool" where
  "bad (Done n) = (0 < n)"
| "bad (Exit n) = (0 < n)"
| "bad Sigint = True"
| "bad (Return n) = (0 < n)"

definition news :: "state \<Rightarrow> state \<Rightarrow> event list" where
  \<comment> \<open>the events added between two states\<close>
  "news s s' = drop (length (trace s)) (trace s')"

definition summary ::
    "step list \<Rightarrow> nat option \<Rightarrow> flow \<Rightarrow> nat option \<Rightarrow> event list \<Rightarrow> bool" where
  "summary xs p r p' evs =
     (length (spawned evs) = count_list (steps_of evs) StartLocal \<and>
      p' = (if spawned evs = [] then p else Some (last (spawned evs))) \<and>
      (if r = Done 0 then steps_of evs = xs \<and> (\<forall>e\<in>set evs. \<not> failed e)
       else bad r \<and> (\<exists>n. n \<le> length xs \<and> steps_of evs = take n xs)
            \<and> (\<exists>e\<in>set evs. failed e) \<and> steps_of (dropWhile (\<lambda>e. \<not> failed e) evs) = []))"

definition runs :: "step list \<Rightarrow> state \<Rightarrow> flow \<times> state \<Rightarrow> bool" where
  "runs xs s rs =
     (trace (snd rs) = trace s @ news s (snd rs) \<and>
      summary xs (LOCAL_PID s) (fst rs) (LOCAL_PID (snd rs)) (news s (snd rs)))"

definition calm :: "sh \<Rightarrow> bool" where
  \<comment> \<open>a command that ends with status 0 unless it is interrupted\<close>
  "calm f = (\<forall>s. fst (f s) = Done 0 \<or> fst (f s) = Sigint)"

definition kill_if :: "world \<Rightarrow> sh" where
  \<comment> \<open>the second command of \<^verbatim>\<open>cleanup\<close>\<close>
  "kill_if w = if_then (\<lambda>s. (Done (if LOCAL_PID s \<noteq> None then 0 else 1), s))
         (body [(\<lambda>s. or_true (run w (Kill (the (LOCAL_PID s)))) s)])"

definition cleanup_tail :: "world \<Rightarrow> sh list" where
  \<comment> \<open>the commands of \<^verbatim>\<open>cleanup\<close> after it\<close>
  "cleanup_tail w = [or_true (run w ComposeDown), or_true (run w DockerStop),
       or_true (run w DockerRm), print_success ''Cleanup completed!'']"




subsection \<open>Concrete worlds\<close>

definition world_ok :: world where
  \<comment> \<open>every tool is installed and every command succeeds\<close>
  "world_ok = \<lparr>present = (\<lambda>t. True), outcome_of = (\<lambda>h c. Exited 0), bg_pid = (\<lambda>h. 4242),
     env_LOCAL_PID = None, script_name = ''./run.sh''\<rparr>"

definition world_lint_fails :: world where
  \<comment> \<open>as \<open>world_ok\<close>, but the lint step exits with status 2\<close>
  "world_lint_fails = world_ok\<lparr>outcome_of := (\<lambda>h c. if c = NpmRunLint then Exited 2 else Exited 0)\<rparr>"

definition world_no_docker :: world where
  \<comment> \<open>as \<open>world_ok\<close>, but neither \<^verbatim>\<open>docker\<close> nor \<^verbatim>\<open>docker-compose\<close> is installed\<close>
  "world_no_docker = world_ok\<lparr>present := (\<lambda>t. t \<noteq> ''docker'' \<and> t \<noteq> ''docker-compose'')\<rparr>"

definition world_info_down :: world where
  \<comment> \<open>as \<open>world_ok\<close>, but the probe of the info endpoint exits with status 22\<close>
  "world_info_down = world_ok\<lparr>outcome_of := (\<lambda>h c. if c = Curl url_info then Exited 22 else Exited 0)\<rparr>"

definition world_ctrl_c :: world where
  \<comment> \<open>as \<open>world_ok\<close>, but an interrupt arrives while the script waits\<close>
  "world_ctrl_c = world_ok\<lparr>outcome_of := (\<lambda>h c. if c = Wait then Interrupted else Exited 0)\<rparr>"

section \<open>Properties of the script\<close>

subsection \<open>Auxiliary facts\<close>

lemmas sh_defs = emit_def run_def background_def errexit_def func_def if_then_else_def if_then_def
  neg_def or_true_def exit_sh_def return_sh_def echo_def wait_sh_def print_status_def print_success_def
  print_warning_def print_error_def command_exists_def add_missing_def

lemma outcome_cases:
  obtains (ok) "oc = Exited 0" | (failed) n where "oc = Exited (Suc n)" | (intr) "oc = Interrupted"
  by (cases oc) (metis nat.exhaust, simp)

lemma steps_of_append [simp]: "steps_of (xs @ ys) = steps_of xs @ steps_of ys"
  by (induction xs) (simp_all split: option.splits)

lemma spawned_append [simp]: "spawned (xs @ ys) = spawned xs @ spawned ys"
  by (induction xs rule: spawned.induct) simp_all

lemma probes_append [simp]: "probes (xs @ ys) = probes xs @ probes ys"
  by (induction xs rule: probes.induct) simp_all

lemma errors_append [simp]: "errors (xs @ ys) = errors xs @ errors ys"
  by (induction xs rule: errors.induct) simp_all

lemmas test_app_simps = test_app_def sh_defs Let_def url_root_def url_health_def url_info_def

lemma runsI:
  "trace s' = trace s @ evs \<Longrightarrow> summary xs (LOCAL_PID s) r (LOCAL_PID s') evs \<Longrightarrow> runs xs s (r, s')"
  by (simp add: runs_def news_def)

lemma runsE:
  assumes "runs xs s (r, s')"
  obtains evs where "trace s' = trace s @ evs" "summary xs (LOCAL_PID s) r (LOCAL_PID s') evs"
  using assms unfolding runs_def by simp

lemma count_list_append' [simp]: "count_list (xs @ ys) a = count_list xs a + count_list ys a"
  by (induction xs) simp_all

lemma pid_step:
  "p1 = (if A = [] then p else Some (last A)) \<Longrightarrow> p2 = (if B = [] then p1 else Some (last B)) \<Longrightarrow>
   p2 = (if A @ B = [] then p else Some (last (A @ B)))"
  by (cases "B = []") simp_all

lemma summary_append:
  assumes "summary xs p (Done 0) p1 evs1" and "summary ys p1 r p2 evs2"
  shows "summary (xs @ ys) p r p2 (evs1 @ evs2)"
proof -
  from assms(1) have a1: "length (spawned evs1) = count_list (steps_of evs1) StartLocal"
    and a2: "p1 = (if spawned evs1 = [] then p else Some (last (spawned evs1)))"
    and a3: "steps_of evs1 = xs" and a4: "\<forall>e\<in>set evs1. \<not> failed e"
    unfolding summary_def by simp_all
  from assms(2) have b1: "length (spawned evs2) = count_list (steps_of evs2) StartLocal"
    and b2: "p2 = (if spawned evs2 = [] then p1 else Some (last (spawned evs2)))"
    unfolding summary_def by simp_all
  have dw: "dropWhile (\<lambda>e. \<not> failed e) (evs1 @ evs2) = dropWhile (\<lambda>e. \<not> failed e) evs2"
    using a4 by (simp add: dropWhile_append2)
  have c1: "length (spawned (evs1 @ evs2)) = count_list (steps_of (evs1 @ evs2)) StartLocal"
    using a1 b1 by simp
  have c2: "p2 = (if spawned (evs1 @ evs2) = [] then p else Some (last (spawned (evs1 @ evs2))))"
    using pid_step[OF a2 b2] by simp
  show ?thesis
  proof (cases "r = Done 0")
    case True
    with assms(2) have "steps_of evs2 = ys" "\<forall>e\<in>set evs2. \<not> failed e"
      unfolding summary_def by simp_all
    with a3 a4 have "steps_of (evs1 @ evs2) = xs @ ys \<and> (\<forall>e\<in>set (evs1 @ evs2). \<not> failed e)"
      by auto
    with True c1 c2 show ?thesis
      unfolding summary_def by presburger
  next
    case False
    with assms(2) have br: "bad r" and ex: "\<exists>n. n \<le> length ys \<and> steps_of evs2 = take n ys"
      and fl: "\<exists>e\<in>set evs2. failed e" and dr: "steps_of (dropWhile (\<lambda>e. \<not> failed e) evs2) = []"
      unfolding summary_def by simp_all
    from ex obtain n where n: "n \<le> length ys" "steps_of evs2 = take n ys" by blast
    have "length xs + n \<le> length (xs @ ys) \<and> steps_of (evs1 @ evs2) = take (length xs + n) (xs @ ys)"
      using n a3 by simp
    then have d1: "\<exists>m. m \<le> length (xs @ ys) \<and> steps_of (evs1 @ evs2) = take m (xs @ ys)"
      by blast
    have d2: "\<exists>e\<in>set (evs1 @ evs2). failed e"
      using fl by auto
    have d3: "steps_of (dropWhile (\<lambda>e. \<not> failed e) (evs1 @ evs2)) = []"
      using dr dw by simp
    from False br c1 c2 d1 d2 d3 show ?thesis
      unfolding summary_def by presburger
  qed
qed

lemma summary_stop:
  assumes "summary xs p r p1 evs" and "r \<noteq> Done 0"
  shows "summary (xs @ ys) p r p1 evs"
proof -
  from assms have ex: "\<exists>n. n \<le> length xs \<and> steps_of evs = take n xs"
    unfolding summary_def by simp
  then obtain n where n: "n \<le> length xs" "steps_of evs = take n xs" by blast
  then have "n \<le> length (xs @ ys) \<and> steps_of evs = take n (xs @ ys)"
    by simp
  then have "\<exists>m. m \<le> length (xs @ ys) \<and> steps_of evs = take m (xs @ ys)"
    by blast
  with assms show ?thesis
    unfolding summary_def by presburger
qed

lemma summary_bad:
  "summary xs p r p1 evs \<Longrightarrow> r \<noteq> Done 0 \<Longrightarrow> bad r"
  unfolding summary_def by simp

lemma summary_flow:
  assumes "summary xs p r p1 evs" "r \<noteq> Done 0" "bad r'"
  shows "summary xs p r' p1 evs"
proof -
  from assms(3) have "r' \<noteq> Done 0" by (cases r') auto
  with assms show ?thesis unfolding summary_def by presburger
qed

lemma runs_seq:
  assumes f: "runs xs s (f s)" and g: "\<And>s'. runs ys s' (g s')"
  shows "runs (xs @ ys) s (case errexit f s of (Done n, s') \<Rightarrow> g s' | r \<Rightarrow> r)"
proof -
  obtain r s1 where fs: "f s = (r, s1)" by (cases "f s")
  from f obtain evs1 where e1: "trace s1 = trace s @ evs1"
    and e2: "summary xs (LOCAL_PID s) r (LOCAL_PID s1) evs1"
    unfolding fs by (rule runsE)
  show ?thesis
  proof (cases "r = Done 0")
    case True
    obtain r2 s2 where gs: "g s1 = (r2, s2)" by (cases "g s1")
    from g[of s1] obtain evs2 where e3: "trace s2 = trace s1 @ evs2"
      and e4: "summary ys (LOCAL_PID s1) r2 (LOCAL_PID s2) evs2"
      unfolding gs by (rule runsE)
    have t: "trace s2 = trace s @ (evs1 @ evs2)" using e1 e3 by simp
    have "summary (xs @ ys) (LOCAL_PID s) r2 (LOCAL_PID s2) (evs1 @ evs2)"
      using e2[unfolded True] e4 by (rule summary_append)
    with t have "runs (xs @ ys) s (r2, s2)" by (rule runsI)
    with True fs gs show ?thesis by (simp add: errexit_def)
  next
    case False
    have st: "summary (xs @ ys) (LOCAL_PID s) r (LOCAL_PID s1) evs1"
      using e2 False by (rule summary_stop)
    have b: "bad r" using e2 False by (rule summary_bad)
    have keep: "runs (xs @ ys) s (r, s1)" using e1 st by (rule runsI)
    show ?thesis
    proof (cases r)
      case (Done n)
      with False b have n: "n \<noteq> 0" by simp
      have "bad (Exit n)" using n by simp
      with st False have "summary (xs @ ys) (LOCAL_PID s) (Exit n) (LOCAL_PID s1) evs1"
        by (rule summary_flow)
      with e1 have "runs (xs @ ys) s (Exit n, s1)" by (rule runsI)
      with Done n fs show ?thesis by (simp add: errexit_def)
    next
      case (Return n)
      with keep fs show ?thesis by (simp add: errexit_def)
    next
      case (Exit n)
      with keep fs show ?thesis by (simp add: errexit_def)
    next
      case Sigint
      with keep fs show ?thesis by (simp add: errexit_def)
    qed
  qed
qed

lemma runs_body:
  "list_all2 (\<lambda>xs f. \<forall>s. runs xs s (f s)) xss fs \<Longrightarrow> runs (concat xss) s (body fs s)"
proof (induction xss fs arbitrary: s rule: list_all2_induct)
  case Nil
  show ?case by (simp add: runs_def news_def summary_def)
next
  case (Cons xs xss f fs)
  have "runs (xs @ concat xss) s (case errexit f s of (Done n, s') \<Rightarrow> body fs s' | r \<Rightarrow> r)"
  proof (rule runs_seq)
    show "runs xs s (f s)" using Cons.hyps(1) by simp
    show "\<And>s'. runs (concat xss) s' (body fs s')" by (rule Cons.IH)
  qed
  then show ?case by simp
qed

lemma runs_func:
  assumes a: "runs xs s (f s)"
  shows "runs xs s (func f s)"
proof -
  obtain r s1 where fs: "f s = (r, s1)" by (cases "f s")
  from a obtain evs1 where e1: "trace s1 = trace s @ evs1"
    and e2: "summary xs (LOCAL_PID s) r (LOCAL_PID s1) evs1"
    unfolding fs by (rule runsE)
  show ?thesis
  proof (cases r)
    case (Return n)
    then have nd: "r \<noteq> Done 0" by simp
    with e2 have "bad r" by (rule summary_bad)
    with Return have "bad (Done n)" by simp
    with e2 nd have "summary xs (LOCAL_PID s) (Done n) (LOCAL_PID s1) evs1"
      by (rule summary_flow)
    with e1 have "runs xs s (Done n, s1)" by (rule runsI)
    with Return fs show ?thesis by (simp add: func_def)
  next
    case (Done n)
    with a fs show ?thesis by (simp add: func_def)
  next
    case (Exit n)
    with a fs show ?thesis by (simp add: func_def)
  next
    case Sigint
    with a fs show ?thesis by (simp add: func_def)
  qed
qed

lemmas runs_defs = runs_def news_def summary_def

lemma take_all_ex: "\<exists>n. n \<le> length xs \<and> xs = take n xs"
  by (rule exI[of _ "length xs"]) simp

lemma runs_print_success: "runs [] s (print_success m s)"
  by (simp add: runs_defs sh_defs)

lemma runs_echo: "runs [] s (echo m s)"
  by (simp add: runs_defs sh_defs)

lemma runs_print_status: "step_of (Info m) = None \<Longrightarrow> runs [] s (print_status m s)"
  by (simp add: runs_defs sh_defs)

lemma runs_marker:
  "step_of (Info m) = Some x \<Longrightarrow> x \<noteq> StartLocal \<Longrightarrow> runs [x] s (print_status m s)"
  by (simp add: runs_defs sh_defs)

lemma runs_wait: "runs [] s (wait_sh w s)"
  by (cases "outcome_of w (trace s) Wait") (simp_all add: runs_defs sh_defs Let_def)

lemma runs_run: "\<not> status_ignored c \<Longrightarrow> runs [] s (run w c s)"
  by (cases "outcome_of w (trace s) c" rule: outcome_cases) (simp_all add: runs_defs sh_defs Let_def)

lemma runs_or_true_run: "status_ignored c \<Longrightarrow> runs [] s (or_true (run w c) s)"
  by (cases "outcome_of w (trace s) c") (simp_all add: runs_defs sh_defs Let_def)

lemma runs_bodyI:
  "list_all2 (\<lambda>xs f. \<forall>s. runs xs s (f s)) xss fs \<Longrightarrow> concat xss = ys \<Longrightarrow> runs ys s (body fs s)"
  using runs_body by blast

lemmas runs_prims = runs_print_status runs_marker runs_run runs_or_true_run runs_print_success
  runs_echo runs_wait

lemma runs_install_dependencies: "runs [InstallDependencies] s (install_dependencies w s)"
  unfolding install_dependencies_def
  by (rule runs_func, rule runs_bodyI[where xss = "[[InstallDependencies], [], []]"], unfold list.rel_inject)
     ((intro conjI allI TrueI runs_prims; simp), simp)

lemma runs_run_tests: "runs [RunTests] s (run_tests w s)"
  unfolding run_tests_def
  by (rule runs_func, rule runs_bodyI[where xss = "[[RunTests], [], [], []]"], unfold list.rel_inject)
     ((intro conjI allI TrueI runs_prims; simp), simp)

lemma runs_build_docker: "runs [BuildImage] s (build_docker w s)"
  unfolding build_docker_def
  by (rule runs_func, rule runs_bodyI[where xss = "[[BuildImage], [], []]"], unfold list.rel_inject)
     ((intro conjI allI TrueI runs_prims; simp), simp)

lemma runs_start_docker: "runs [StartDocker] s (start_app w ''docker'' s)"
  unfolding start_app_def
  by (simp del: body.simps, rule runs_func, rule runs_bodyI[where xss = "[[StartDocker], [], []]"], unfold list.rel_inject)
     ((intro conjI allI TrueI runs_prims; simp), simp)

lemma runs_start_compose: "runs [StartCompose] s (start_app w ''compose'' s)"
  unfolding start_app_def
  by (simp del: body.simps, rule runs_func, rule runs_bodyI[where xss = "[[StartCompose], [], []]"], unfold list.rel_inject)
     ((intro conjI allI TrueI runs_prims; simp), simp)

lemma runs_start_local: "runs [StartLocal] s (start_app w ''local'' s)"
  by (cases "outcome_of w (trace s @ [Info ''Starting application locally...'',
               Spawned NpmStart (bg_pid w (trace s @ [Info ''Starting application locally...'']))]) (Sleep 3)"
        rule: outcome_cases)
     (simp_all add: runs_defs start_app_def sh_defs Let_def take_all_ex[of "[x]" for x, simplified])

lemma runs_probe:
  "runs [] s (if_then_else (run w (Curl u)) (body [print_success m]) (body [print_error m', return_sh 1]) s)"
  by (cases "outcome_of w (trace s) (Curl u)" rule: outcome_cases)
     (simp_all add: runs_defs sh_defs Let_def)

lemma runs_test_app: "runs [SmokeTest] s (test_app w s)"
  unfolding test_app_def
  by (rule runs_func, rule runs_bodyI[where xss = "[[SmokeTest], [], [], [], []]"], unfold list.rel_inject)
     ((intro conjI allI TrueI runs_prims runs_probe; simp), simp)

lemma runs_kill_if:
  "runs [] s (if_then (\<lambda>s. (Done (if LOCAL_PID s \<noteq> None then 0 else 1), s))
         (body [(\<lambda>s. or_true (run w (Kill (the (LOCAL_PID s)))) s)]) s)"
proof (cases "LOCAL_PID s")
  case None
  then show ?thesis by (simp add: runs_defs sh_defs)
next
  case (Some p)
  then show ?thesis
    by (cases "outcome_of w (trace s) (Kill p)") (simp_all add: runs_defs sh_defs Let_def)
qed

lemma runs_cleanup: "runs [Cleanup] s (cleanup w s)"
  unfolding cleanup_def
  by (rule runs_func, rule runs_bodyI[where xss = "[[Cleanup], [], [], [], [], []]"], unfold list.rel_inject)
     ((intro conjI allI TrueI runs_prims runs_kill_if; simp), simp)

lemma runs_show_help: "runs [] s (show_help w s)"
  unfolding show_help_def
  by (rule runs_func, rule runs_bodyI[where xss = "[[], [], [], [], [], [], [], [], [], [], [], [], [], [], [], [], [], [], [], []]"], unfold list.rel_inject)
     ((intro conjI allI TrueI runs_prims; simp), simp)

lemma check_prerequisites_eq:
  "check_prerequisites w s =
     (if absent_tools w = []
      then (Done 0,
            s\<lparr>trace := trace s @ Info ''Checking prerequisites...'' #
                 map (\<lambda>t. Checked t (present w t)) required_tools @
                 [Success ''All prerequisites are met!''],
              missing_tools := []\<rparr>)
      else (Exit 1,
            s\<lparr>trace := trace s @ Info ''Checking prerequisites...'' #
                 map (\<lambda>t. Checked t (present w t)) required_tools @
                 [Error (''Missing required tools: '' @ join_words (absent_tools w)),
                  Echo ''Please install the missing tools and run this script again.''],
              missing_tools := absent_tools w\<rparr>))"
  by (cases "present w ''node''"; cases "present w ''npm''"; cases "present w ''docker''";
      cases "present w ''docker-compose''")
     (simp_all add: check_prerequisites_def absent_tools_def required_tools_def sh_defs)

lemma absent_none: "absent_tools w = [] \<longleftrightarrow> present w ''node'' \<and> present w ''npm'' \<and> present w ''docker'' \<and> present w ''docker-compose''"
  by (auto simp: absent_tools_def required_tools_def)

lemma take1_ex: "\<exists>n. n \<le> Suc 0 \<and> [x] = take n [x]"
  by (rule exI[of _ 1]) simp

lemma runs_check_prerequisites: "runs [CheckPrerequisites] s (check_prerequisites w s)"
proof (cases "absent_tools w = []")
  case True
  then show ?thesis
    by (simp add: check_prerequisites_eq runs_defs required_tools_def absent_none)
next
  case False
  then show ?thesis
    by (cases "present w ''node''"; cases "present w ''npm''"; cases "present w ''docker''";
        cases "present w ''docker-compose''")
       (simp_all add: check_prerequisites_eq runs_defs required_tools_def absent_none take1_ex)
qed

lemmas runs_fns = runs_check_prerequisites runs_install_dependencies runs_run_tests
  runs_build_docker runs_start_local runs_start_docker runs_start_compose runs_test_app
  runs_cleanup runs_show_help

lemma runs_run_full_pipeline: "runs pipeline s (run_full_pipeline w s)"
  unfolding run_full_pipeline_def pipeline_def
  by (rule runs_func, rule runs_bodyI[where xss = "[[], [CheckPrerequisites], [InstallDependencies],
        [RunTests], [BuildImage], [StartCompose], [SmokeTest], [], [], [], [], [], [], []]"],
      unfold list.rel_inject)
     ((intro conjI allI TrueI runs_prims runs_fns; simp), simp)

lemma main_setup: "selected args = ''setup'' \<Longrightarrow> runs (plan ''setup'') s (main w args s)"
  unfolding main_def plan_def
  by (simp del: body.simps, rule runs_bodyI[where xss = "[[CheckPrerequisites], [InstallDependencies], [RunTests], []]"],
      unfold list.rel_inject)
     ((intro conjI allI TrueI runs_prims runs_fns; simp), simp)

lemma main_start_local: "selected args = ''start-local'' \<Longrightarrow> runs (plan ''start-local'') s (main w args s)"
  unfolding main_def plan_def
  by (simp del: body.simps, rule runs_bodyI[where xss = "[[CheckPrerequisites], [StartLocal], [SmokeTest], [], [], []]"],
      unfold list.rel_inject)
     ((intro conjI allI TrueI runs_prims runs_fns runs_run_full_pipeline; simp add: pipeline_def), simp add: pipeline_def)

lemma main_start_docker: "selected args = ''start-docker'' \<Longrightarrow> runs (plan ''start-docker'') s (main w args s)"
  unfolding main_def plan_def
  by (simp del: body.simps, rule runs_bodyI[where xss = "[[CheckPrerequisites], [BuildImage], [StartDocker], [SmokeTest], [], []]"],
      unfold list.rel_inject)
     ((intro conjI allI TrueI runs_prims runs_fns runs_run_full_pipeline; simp add: pipeline_def), simp add: pipeline_def)

lemma main_start_compose: "selected args = ''start-compose'' \<Longrightarrow> runs (plan ''start-compose'') s (main w args s)"
  unfolding main_def plan_def
  by (simp del: body.simps, rule runs_bodyI[where xss = "[[CheckPrerequisites], [StartCompose], [SmokeTest], [], []]"],
      unfold list.rel_inject)
     ((intro conjI allI TrueI runs_prims runs_fns runs_run_full_pipeline; simp add: pipeline_def), simp add: pipeline_def)

lemma main_test: "selected args = ''test'' \<Longrightarrow> runs (plan ''test'') s (main w args s)"
  unfolding main_def plan_def
  by (simp del: body.simps, rule runs_bodyI[where xss = "[[CheckPrerequisites], [InstallDependencies], [RunTests]]"],
      unfold list.rel_inject)
     ((intro conjI allI TrueI runs_prims runs_fns runs_run_full_pipeline; simp add: pipeline_def), simp add: pipeline_def)

lemma main_build: "selected args = ''build'' \<Longrightarrow> runs (plan ''build'') s (main w args s)"
  unfolding main_def plan_def
  by (simp del: body.simps, rule runs_bodyI[where xss = "[[CheckPrerequisites], [BuildImage]]"],
      unfold list.rel_inject)
     ((intro conjI allI TrueI runs_prims runs_fns runs_run_full_pipeline; simp add: pipeline_def), simp add: pipeline_def)

lemma main_clean: "selected args = ''clean'' \<Longrightarrow> runs (plan ''clean'') s (main w args s)"
  unfolding main_def plan_def
  by (simp del: body.simps, rule runs_bodyI[where xss = "[[Cleanup]]"],
      unfold list.rel_inject)
     ((intro conjI allI TrueI runs_prims runs_fns runs_run_full_pipeline; simp add: pipeline_def), simp add: pipeline_def)

lemma main_full: "selected args = ''full'' \<Longrightarrow> runs (plan ''full'') s (main w args s)"
  unfolding main_def plan_def
  by (simp del: body.simps, rule runs_bodyI[where xss = "[pipeline]"],
      unfold list.rel_inject)
     ((intro conjI allI TrueI runs_prims runs_fns runs_run_full_pipeline; simp add: pipeline_def), simp add: pipeline_def)

lemma main_help: "selected args = ''help'' \<Longrightarrow> runs (plan ''help'') s (main w args s)"
  unfolding main_def plan_def
  by (simp del: body.simps, rule runs_bodyI[where xss = "[[]]"],
      unfold list.rel_inject)
     ((intro conjI allI TrueI runs_prims runs_fns runs_run_full_pipeline; simp add: pipeline_def), simp add: pipeline_def)

lemma main_help2: "selected args = ''--help'' \<Longrightarrow> runs (plan ''--help'') s (main w args s)"
  unfolding main_def plan_def
  by (simp del: body.simps, rule runs_bodyI[where xss = "[[]]"],
      unfold list.rel_inject)
     ((intro conjI allI TrueI runs_prims runs_fns runs_run_full_pipeline; simp add: pipeline_def), simp add: pipeline_def)

lemma main_help3: "selected args = ''-h'' \<Longrightarrow> runs (plan ''-h'') s (main w args s)"
  unfolding main_def plan_def
  by (simp del: body.simps, rule runs_bodyI[where xss = "[[]]"],
      unfold list.rel_inject)
     ((intro conjI allI TrueI runs_prims runs_fns runs_run_full_pipeline; simp add: pipeline_def), simp add: pipeline_def)

lemma main_runs: "recognized (selected args) \<Longrightarrow> runs (plan (selected args)) s (main w args s)"
  unfolding recognized_def
  using main_setup main_start_local main_start_docker main_start_compose main_test main_build
    main_clean main_full main_help main_help2 main_help3
  by (simp only: set_simps insert_iff empty_iff) metis

lemma runs_extends: "runs xs s rs \<Longrightarrow> \<exists>evs. trace (snd rs) = trace s @ evs"
  unfolding runs_def by blast

lemma calm_body: "list_all calm fs \<Longrightarrow> calm (body fs)"
proof (induction fs)
  case Nil
  show ?case by (simp add: calm_def)
next
  case (Cons f fs)
  then have f: "calm f" and r: "calm (body fs)" by simp_all
  show ?case
    unfolding calm_def
  proof
    fix s
    obtain r1 s1 where fs: "f s = (r1, s1)" by (cases "f s")
    from f have "r1 = Done 0 \<or> r1 = Sigint" using fs by (auto simp: calm_def dest: spec[of _ s])
    then show "fst (body (f # fs) s) = Done 0 \<or> fst (body (f # fs) s) = Sigint"
      using fs r by (auto simp: errexit_def calm_def)
  qed
qed

lemma calm_func: "calm f \<Longrightarrow> calm (func f)"
  unfolding calm_def
proof
  fix s
  assume a: "\<forall>s. fst (f s) = Done 0 \<or> fst (f s) = Sigint"
  obtain r s1 where fs: "f s = (r, s1)" by (cases "f s")
  with a have "r = Done 0 \<or> r = Sigint" by (metis fst_conv)
  with fs show "fst (func f s) = Done 0 \<or> fst (func f s) = Sigint"
    by (auto simp: func_def)
qed

lemma calm_print_status: "calm (print_status m)"
  by (simp add: calm_def sh_defs)

lemma calm_print_success: "calm (print_success m)"
  by (simp add: calm_def sh_defs)

lemma calm_or_true_run: "calm (or_true (run w c))"
  by (simp add: calm_def sh_defs Let_def split: outcome.splits)

lemma kill_if_eq:
  "kill_if w s =
     (case LOCAL_PID s of
        None \<Rightarrow> (Done 0, s)
      | Some p \<Rightarrow>
          (case outcome_of w (trace s) (Kill p) of
             Exited n \<Rightarrow> (Done 0, emit (Ran (Kill p) (Exited n)) s)
           | Interrupted \<Rightarrow> (Sigint, emit (Ran (Kill p) Interrupted) s)))"
  by (simp add: kill_if_def sh_defs Let_def split: option.splits outcome.splits)

lemma calm_kill_if: "calm (kill_if w)"
  by (simp add: calm_def kill_if_eq split: option.splits outcome.splits)

lemma cleanup_unfold: "cleanup w = func (body (print_status ''Cleaning up...'' # kill_if w # cleanup_tail w))"
  unfolding cleanup_def kill_if_def cleanup_tail_def ..

lemma cleanup_flow: "fst (cleanup w s) = Done 0 \<or> fst (cleanup w s) = Sigint"
proof -
  have "list_all calm (print_status ''Cleaning up...'' # kill_if w # cleanup_tail w)"
    unfolding cleanup_tail_def
    by (simp add: calm_print_status calm_print_success calm_or_true_run calm_kill_if)
  then have "calm (cleanup w)"
    unfolding cleanup_unfold by (intro calm_func calm_body)
  then show ?thesis by (simp add: calm_def)
qed

lemma cleanup_tail_extends: "\<exists>evs. trace (snd (body (cleanup_tail w) s)) = trace s @ evs"
  unfolding cleanup_tail_def
  by (rule runs_extends[where xs = "[]"], rule runs_bodyI[where xss = "[[], [], [], []]"],
      unfold list.rel_inject)
     ((intro conjI allI TrueI runs_prims; simp), simp)

lemma snd_func: "snd (func f s) = snd (f s)"
  by (simp add: func_def split: prod.splits flow.splits)

lemma body_print_status: "body (print_status m # fs) s = body fs (emit (Info m) s)"
  by (simp add: errexit_def print_status_def)

lemma cleanup_marker:
  "\<exists>rest. trace (snd (cleanup w s)) = trace s @ Info ''Cleaning up...'' # rest \<and>
     (\<forall>p. LOCAL_PID s = Some p \<longrightarrow> (\<exists>oc rest'. rest = Ran (Kill p) oc # rest'))"
proof -
  define s1 where "s1 = emit (Info ''Cleaning up...'') s"
  have t1: "trace s1 = trace s @ [Info ''Cleaning up...'']" and p1: "LOCAL_PID s1 = LOCAL_PID s"
    by (simp_all add: s1_def emit_def)
  have c: "snd (cleanup w s) = snd (body (kill_if w # cleanup_tail w) s1)"
    unfolding cleanup_unfold snd_func body_print_status s1_def ..
  show ?thesis
  proof (cases "LOCAL_PID s")
    case None
    then have "body (kill_if w # cleanup_tail w) s1 = body (cleanup_tail w) s1"
      using p1 by (simp add: kill_if_eq errexit_def)
    moreover obtain evs where "trace (snd (body (cleanup_tail w) s1)) = trace s1 @ evs"
      using cleanup_tail_extends by blast
    ultimately show ?thesis using None c t1 by simp
  next
    case (Some p)
    show ?thesis
    proof (cases "outcome_of w (trace s1) (Kill p)")
      case (Exited n)
      define s2 where "s2 = emit (Ran (Kill p) (Exited n)) s1"
      have "body (kill_if w # cleanup_tail w) s1 = body (cleanup_tail w) s2"
        using Some p1 Exited by (simp add: kill_if_eq errexit_def s2_def)
      moreover obtain evs where "trace (snd (body (cleanup_tail w) s2)) = trace s2 @ evs"
        using cleanup_tail_extends by blast
      moreover have "trace s2 = trace s @ [Info ''Cleaning up...'', Ran (Kill p) (Exited n)]"
        using t1 by (simp add: s2_def emit_def)
      ultimately show ?thesis using Some c by simp
    next
      case Interrupted
      then have "body (kill_if w # cleanup_tail w) s1 = (Sigint, emit (Ran (Kill p) Interrupted) s1)"
        using Some p1 by (simp add: kill_if_eq errexit_def)
      then show ?thesis using Some c t1 by (simp add: emit_def)
    qed
  qed
qed

lemma cleanup_steps: "steps_of (news s (snd (cleanup w s))) = [Cleanup]"
proof -
  obtain rest where "trace (snd (cleanup w s)) = trace s @ Info ''Cleaning up...'' # rest"
    using cleanup_marker by blast
  then have a: "steps_of (news s (snd (cleanup w s))) = Cleanup # steps_of rest"
    by (simp add: news_def)
  have "runs [Cleanup] s (cleanup w s)" by (rule runs_cleanup)
  then have "\<exists>n. n \<le> length [Cleanup] \<and> steps_of (news s (snd (cleanup w s))) = take n [Cleanup]"
    unfolding runs_def summary_def by (metis take_all_ex)
  then obtain n where "n \<le> 1" "steps_of (news s (snd (cleanup w s))) = take n [Cleanup]"
    by auto
  with a show ?thesis by (cases n) simp_all
qed

lemma snd_errexit: "snd (errexit f s) = snd (f s)"
  by (simp add: errexit_def split: prod.splits flow.splits)

lemma script_eq:
  "script w args =
     (if fst (cleanup w (snd (main w args (initial w)))) = Sigint then Sigint
      else fst (main w args (initial w)),
      snd (cleanup w (snd (main w args (initial w)))))"
  by (simp add: script_def split: prod.splits flow.splits)

lemma initial_simps [simp]: "trace (initial w) = []" "LOCAL_PID (initial w) = env_LOCAL_PID w"
  by (simp_all add: initial_def)

lemma script_parts:
  assumes "recognized (selected args)"
  obtains r sm rc sf evs cevs where
    "main w args (initial w) = (r, sm)" "cleanup w sm = (rc, sf)"
    "script w args = (if rc = Sigint then Sigint else r, sf)"
    "trace sm = evs" "trace sf = evs @ cevs"
    "summary (plan (selected args)) (env_LOCAL_PID w) r (LOCAL_PID sm) evs"
    "summary [Cleanup] (LOCAL_PID sm) rc (LOCAL_PID sf) cevs"
    "rc = Done 0 \<or> rc = Sigint"
    "steps_of cevs = [Cleanup]"
    "\<forall>p. LOCAL_PID sm = Some p \<longrightarrow> (\<exists>oc rest. cevs = Info ''Cleaning up...'' # Ran (Kill p) oc # rest)"
proof -
  obtain r sm where m: "main w args (initial w) = (r, sm)" by (cases "main w args (initial w)")
  obtain rc sf where c: "cleanup w sm = (rc, sf)" by (cases "cleanup w sm")
  have "runs (plan (selected args)) (initial w) (main w args (initial w))"
    using assms by (rule main_runs)
  then obtain evs where e: "trace sm = trace (initial w) @ evs"
    and se: "summary (plan (selected args)) (LOCAL_PID (initial w)) r (LOCAL_PID sm) evs"
    unfolding m by (rule runsE)
  have "runs [Cleanup] sm (cleanup w sm)" by (rule runs_cleanup)
  then obtain cevs where ce: "trace sf = trace sm @ cevs"
    and sc: "summary [Cleanup] (LOCAL_PID sm) rc (LOCAL_PID sf) cevs"
    unfolding c by (rule runsE)
  have n: "news sm sf = cevs" using ce by (simp add: news_def)
  have f: "rc = Done 0 \<or> rc = Sigint" using cleanup_flow[of w sm] c by simp
  have st: "steps_of cevs = [Cleanup]" using cleanup_steps[of sm w] c n by simp
  obtain rest where k: "trace sf = trace sm @ Info ''Cleaning up...'' # rest"
     "\<forall>p. LOCAL_PID sm = Some p \<longrightarrow> (\<exists>oc rest'. rest = Ran (Kill p) oc # rest')"
    using cleanup_marker[of w sm] c by auto
  from k(1) ce have "cevs = Info ''Cleaning up...'' # rest" by simp
  with k(2) have kl: "\<forall>p. LOCAL_PID sm = Some p \<longrightarrow> (\<exists>oc rest. cevs = Info ''Cleaning up...'' # Ran (Kill p) oc # rest)"
    by auto
  have s: "script w args = (if rc = Sigint then Sigint else r, sf)"
    by (simp add: script_eq m c)
  show ?thesis
    using that[OF m c s _ _ _ sc f st kl, of evs] e ce se by simp
qed

lemma show_help_done: "fst (show_help w s) = Done 0"
  by (simp add: show_help_def sh_defs)

lemma main_unknown:
  assumes "\<not> recognized (selected args)"
  shows "main w args s =
    (Exit 1, snd (show_help w (emit (Error (''Unknown command: '' @ first_arg args)) s)))"
proof -
  define s1 where "s1 = emit (Error (''Unknown command: '' @ first_arg args)) s"
  obtain r2 s2 where h: "show_help w s1 = (r2, s2)" by (cases "show_help w s1")
  with show_help_done[of w s1] have h': "show_help w s1 = (Done 0, s2)" by simp
  have "main w args s = body [print_error (''Unknown command: '' @ first_arg args), show_help w, exit_sh 1] s"
    using assms unfolding recognized_def main_def by (simp add: Let_def del: body.simps)
  also have "\<dots> = (Exit 1, s2)"
    using h' by (simp add: errexit_def print_error_def exit_sh_def s1_def)
  finally show ?thesis using h' by (simp add: s1_def)
qed

lemma script_unknown_parts:
  assumes "\<not> recognized (selected args)"
  obtains sm rc sf evs cevs where
    "main w args (initial w) = (Exit 1, sm)" "cleanup w sm = (rc, sf)"
    "script w args = (if rc = Sigint then Sigint else Exit 1, sf)"
    "trace sm = evs" "trace sf = evs @ cevs"
    "evs = Error (''Unknown command: '' @ first_arg args) #
           news (emit (Error (''Unknown command: '' @ first_arg args)) (initial w)) sm"
    "steps_of evs = []" "spawned evs = []" "\<forall>e\<in>set evs. \<not> failed e"
    "LOCAL_PID sm = env_LOCAL_PID w"
    "summary [Cleanup] (LOCAL_PID sm) rc (LOCAL_PID sf) cevs"
    "rc = Done 0 \<or> rc = Sigint"
    "steps_of cevs = [Cleanup]"
proof -
  define s1 where "s1 = emit (Error (''Unknown command: '' @ first_arg args)) (initial w)"
  define sm where "sm = snd (show_help w s1)"
  have m: "main w args (initial w) = (Exit 1, sm)"
    using main_unknown[OF assms] by (simp add: sm_def s1_def)
  have hs: "show_help w s1 = (Done 0, sm)"
    using show_help_done[of w s1] by (cases "show_help w s1") (simp add: sm_def)
  have "runs [] s1 (show_help w s1)" by (rule runs_show_help)
  then obtain hevs where he: "trace sm = trace s1 @ hevs"
    and sh: "summary [] (LOCAL_PID s1) (Done 0) (LOCAL_PID sm) hevs"
    unfolding hs by (rule runsE)
  have hn: "news s1 sm = hevs" using he by (simp add: news_def)
  from sh have h1: "steps_of hevs = []" "\<forall>e\<in>set hevs. \<not> failed e"
    and h2: "length (spawned hevs) = count_list (steps_of hevs) StartLocal"
    and h3: "LOCAL_PID sm = (if spawned hevs = [] then LOCAL_PID s1 else Some (last (spawned hevs)))"
    unfolding summary_def by simp_all
  from h1 h2 have h4: "spawned hevs = []" by simp
  with h3 have h5: "LOCAL_PID sm = env_LOCAL_PID w" by (simp add: s1_def emit_def)
  have t: "trace sm = Error (''Unknown command: '' @ first_arg args) # hevs"
    using he by (simp add: s1_def emit_def)
  obtain rc sf where c: "cleanup w sm = (rc, sf)" by (cases "cleanup w sm")
  have "runs [Cleanup] sm (cleanup w sm)" by (rule runs_cleanup)
  then obtain cevs where ce: "trace sf = trace sm @ cevs"
    and sc: "summary [Cleanup] (LOCAL_PID sm) rc (LOCAL_PID sf) cevs"
    unfolding c by (rule runsE)
  have n: "news sm sf = cevs" using ce by (simp add: news_def)
  have f: "rc = Done 0 \<or> rc = Sigint" using cleanup_flow[of w sm] c by simp
  have st: "steps_of cevs = [Cleanup]" using cleanup_steps[of sm w] c n by simp
  have s: "script w args = (if rc = Sigint then Sigint else Exit 1, sf)"
    by (simp add: script_eq m c)
  show ?thesis
  proof (rule that[OF m c s _ _ _ _ _ _ h5 sc f st])
    show "trace sm = Error (''Unknown command: '' @ first_arg args) # hevs" by (rule t)
    show "trace sf = (Error (''Unknown command: '' @ first_arg args) # hevs) @ cevs"
      using ce t by simp
    show "Error (''Unknown command: '' @ first_arg args) # hevs =
       Error (''Unknown command: '' @ first_arg args) #
       news (emit (Error (''Unknown command: '' @ first_arg args)) (initial w)) sm"
      using hn by (simp add: s1_def)
    show "steps_of (Error (''Unknown command: '' @ first_arg args) # hevs) = []"
      using h1 by simp
    show "spawned (Error (''Unknown command: '' @ first_arg args) # hevs) = []"
      using h4 by simp
    show "\<forall>e\<in>set (Error (''Unknown command: '' @ first_arg args) # hevs). \<not> failed e"
      using h1 by simp
  qed
qed

lemma count_take_le: "count_list (take n xs) a \<le> count_list xs a"
proof (induction xs arbitrary: n)
  case Nil
  show ?case by simp
next
  case (Cons x xs)
  show ?case using Cons.IH by (cases n) (auto intro: le_SucI)
qed

lemma plan_no_cleanup: "c \<noteq> ''clean'' \<Longrightarrow> count_list (plan c) Cleanup = 0"
  by (simp add: plan_def pipeline_def)

lemma summary_count_le:
  assumes "summary xs p r p' evs"
  shows "count_list (steps_of evs) a \<le> count_list xs a"
proof (cases "r = Done 0")
  case True
  with assms show ?thesis unfolding summary_def by simp
next
  case False
  with assms obtain n where "steps_of evs = take n xs" unfolding summary_def by auto
  then show ?thesis by (simp add: count_take_le)
qed

lemma snd_body1: "snd (body [f] s) = snd (f s)"
  by (simp add: errexit_def split: prod.splits flow.splits)

lemma main_clean_state: "selected args = ''clean'' \<Longrightarrow> snd (main w args s) = snd (cleanup w s)"
  unfolding main_def by (simp add: snd_body1 del: body.simps)




lemma show_help_trace: "trace (snd (show_help w s)) = trace s @ help_text w"
  by (simp add: help_text_def help_lines_def show_help_def sh_defs)

lemma main_help_eq:
  assumes "selected args = ''help'' \<or> selected args = ''--help'' \<or> selected args = ''-h''"
  shows "main w args s = show_help w s"
proof -
  obtain r2 s2 where h: "show_help w s = (r2, s2)" by (cases "show_help w s")
  with show_help_done[of w s] have h': "show_help w s = (Done 0, s2)" by simp
  have "main w args s = body [show_help w] s"
    using assms unfolding main_def by (auto simp add: Let_def simp del: body.simps)
  also have "\<dots> = (Done 0, s2)" using h' by (simp add: errexit_def)
  finally show ?thesis using h' by simp
qed

lemma default_help: "first_arg args = [] \<Longrightarrow> script w args = script w [''help'']"
proof -
  assume "first_arg args = []"
  then have "selected args = ''help''" by (simp add: selected_def)
  then have "main w args (initial w) = show_help w (initial w)"
    by (intro main_help_eq) simp
  moreover have "main w [''help''] (initial w) = show_help w (initial w)"
    by (intro main_help_eq) (simp add: selected_def first_arg_def)
  ultimately show ?thesis by (simp add: script_def)
qed

lemma bad_exit_status: "bad r \<Longrightarrow> exit_status r \<noteq> 0"
  by (cases r) (simp_all add: exit_status_def)

lemma dispatch_help:
  assumes a: "selected args = ''help'' \<or> selected args = ''--help'' \<or> selected args = ''-h''"
  shows "main w args (initial w) = show_help w (initial w) \<and>
        fst (main w args (initial w)) = Done 0 \<and>
        trace (snd (main w args (initial w))) = help_text w"
  unfolding main_help_eq[OF a] by (simp add: show_help_done show_help_trace)

lemma dispatch_recognized:
  assumes rec: "recognized (selected args)"
  shows "(exit_status (fst (script w args)) = 0) = (\<forall>e\<in>set (trace (snd (script w args))). \<not> failed e)"
proof -
  obtain r sm rc sf evs cevs where
    m: "main w args (initial w) = (r, sm)" and c: "cleanup w sm = (rc, sf)"
    and sc: "script w args = (if rc = Sigint then Sigint else r, sf)"
    and tm: "trace sm = evs" and tf: "trace sf = evs @ cevs"
    and su: "summary (plan (selected args)) (env_LOCAL_PID w) r (LOCAL_PID sm) evs"
    and cu: "summary [Cleanup] (LOCAL_PID sm) rc (LOCAL_PID sf) cevs"
    and rcf: "rc = Done 0 \<or> rc = Sigint"
    and stc: "steps_of cevs = [Cleanup]"
    and kl: "\<forall>p. LOCAL_PID sm = Some p \<longrightarrow>
               (\<exists>oc rest. cevs = Info ''Cleaning up...'' # Ran (Kill p) oc # rest)"
    by (rule script_parts[OF rec, of w])
  have tr: "trace (snd (script w args)) = evs @ cevs" using sc tf by simp
  have fs: "fst (script w args) = (if rc = Sigint then Sigint else r)" using sc by simp
  show ?thesis
  proof (cases "rc = Sigint")
    case True
    with cu have "\<exists>e\<in>set cevs. failed e" unfolding summary_def by simp
    then have "\<not> (\<forall>e\<in>set (evs @ cevs). \<not> failed e)" by auto
    moreover have "exit_status (fst (script w args)) \<noteq> 0"
      unfolding fs using True by (simp add: exit_status_def)
    ultimately show ?thesis unfolding tr by blast
  next
    case False
    with rcf have rc0: "rc = Done 0" by simp
    with cu have c: "\<forall>e\<in>set cevs. \<not> failed e" unfolding summary_def by simp
    have fs': "fst (script w args) = r" unfolding fs using False by simp
    show ?thesis
    proof (cases "r = Done 0")
      case True
      with su have "\<forall>e\<in>set evs. \<not> failed e" unfolding summary_def by simp
      with c have "\<forall>e\<in>set (evs @ cevs). \<not> failed e" by auto
      moreover have "exit_status (fst (script w args)) = 0"
        unfolding fs' True by (simp add: exit_status_def)
      ultimately show ?thesis unfolding tr by blast
    next
      case False
      with su have "\<exists>e\<in>set evs. failed e" and "bad r" unfolding summary_def by simp_all
      then have "\<not> (\<forall>e\<in>set (evs @ cevs). \<not> failed e)" and "exit_status r \<noteq> 0"
        by (auto simp: bad_exit_status)
      then show ?thesis unfolding tr fs' by blast
    qed
  qed
qed

lemma dispatch_unknown:
  assumes nrec: "\<not> recognized (selected args)"
  shows "exit_status (fst (script w args)) \<noteq> 0 \<and>
        (\<exists>cevs. trace (snd (script w args)) =
           Error (''Unknown command: '' @ first_arg args) # help_text w @ cevs \<and>
           steps_of cevs = [Cleanup])"
proof -
  obtain sm rc sf evs cevs where p:
    "main w args (initial w) = (Exit 1, sm)"
    "script w args = (if rc = Sigint then Sigint else Exit 1, sf)"
    "trace sm = evs" "trace sf = evs @ cevs"
    "steps_of cevs = [Cleanup]"
    by (rule script_unknown_parts[OF nrec, of w]) blast
  have a: "exit_status (fst (script w args)) \<noteq> 0"
    unfolding p(2) by (simp add: exit_status_def)
  have "sm = snd (show_help w (emit (Error (''Unknown command: '' @ first_arg args)) (initial w)))"
    using main_unknown[OF nrec, of w "initial w"] unfolding p(1) by simp
  then have "trace sm = Error (''Unknown command: '' @ first_arg args) # help_text w"
    by (simp add: show_help_trace emit_def)
  then have "trace (snd (script w args)) = Error (''Unknown command: '' @ first_arg args) # help_text w @ cevs"
    unfolding p(2) using p(3,4) by simp
  with a p(5) show ?thesis by blast
qed







lemma kill_and_spawn [simp]: "spawned (Info m # Ran (Kill p) oc # rest) = spawned rest"
  by simp

subsection \<open>Steps and actions of the full pipeline\<close>


lemma actions_of_append [simp]: "actions_of (xs @ ys) = actions_of xs @ actions_of ys"
  by (induction xs rule: actions_of.induct) (simp_all split: option.splits)




































lemma failed_split: "failed e = (step_failed e \<or> interrupted e)"
  by (cases e) (auto split: outcome.splits)

subsection \<open>The claims about the script\<close>

text \<open>
  C1 (as amended). However the script is invoked and however its main part ends (success, a
  failing step, an unknown command or an interrupt), the exit trap enters \<^verbatim>\<open>cleanup\<close> exactly
  once. For every command but \<^verbatim>\<open>clean\<close> that is the only time; the \<^verbatim>\<open>clean\<close> command calls
  \<^verbatim>\<open>cleanup\<close> itself before the trap does, so \<^verbatim>\<open>cleanup\<close> is entered twice.
\<close>

theorem cleanup_invocations:
  "cleanups (trace (snd (script w args))) = (if selected args = ''clean'' then 2 else 1)"
proof (cases "recognized (selected args)")
  case True
  then obtain r sm rc sf evs cevs where p:
    "main w args (initial w) = (r, sm)"
    "trace sm = evs" "trace sf = evs @ cevs"
    "script w args = (if rc = Sigint then Sigint else r, sf)"
    "summary (plan (selected args)) (env_LOCAL_PID w) r (LOCAL_PID sm) evs"
    "steps_of cevs = [Cleanup]"
    by (rule script_parts[of args w]) blast
  show ?thesis
  proof (cases "selected args = ''clean''")
    case True
    then have "sm = snd (cleanup w (initial w))"
      using main_clean_state[of args w "initial w"] p(1) by simp
    then have "steps_of evs = [Cleanup]"
      using cleanup_steps[of "initial w" w] p(2) by (simp add: news_def)
    with True p show ?thesis by (simp add: cleanups_def)
  next
    case False
    then have "count_list (steps_of evs) Cleanup = 0"
      using summary_count_le[OF p(5), of Cleanup] by (simp add: plan_no_cleanup)
    with False p show ?thesis by (simp add: cleanups_def)
  qed
next
  case False
  then obtain sm rc sf evs cevs where p:
    "script w args = (if rc = Sigint then Sigint else Exit 1, sf)"
    "trace sf = evs @ cevs" "steps_of evs = []" "steps_of cevs = [Cleanup]"
    by (rule script_unknown_parts[of args w]) blast
  from False have "selected args \<noteq> ''clean''" by (auto simp: recognized_def)
  with p show ?thesis by (simp add: cleanups_def)
qed

theorem cleanup_invocations_witness:
  "cleanups (trace (snd (script world_lint_fails [''test'']))) = 1 \<and>
   cleanups (trace (snd (script world_ok [''clean'']))) = 2"
  using cleanup_invocations[of world_lint_fails "[''test'']"]
    cleanup_invocations[of world_ok "[''clean'']"]
  by (simp add: selected_def first_arg_def)

text \<open>
  C1 as stated fails for the \<^verbatim>\<open>clean\<close> command: with every tool installed and every command
  succeeding, \<^verbatim>\<open>cleanup\<close> is not entered exactly once.
\<close>

theorem clean_runs_cleanup_twice:
  "cleanups (trace (snd (script world_ok [''clean'']))) \<noteq> 1"
  by (simp add: script_def main_def selected_def first_arg_def initial_def cleanup_def sh_defs
      world_ok_def cleanups_def)

text \<open>
  C2. Whatever subset of the four required tools is absent, \<^verbatim>\<open>check_prerequisites\<close> probes all
  four. When none is absent it prints its success line and ends with status 0. Otherwise it
  exits the shell with status 1 after an error line that lists every absent tool, in the
  order node, npm, docker, docker-compose, and it does not print the success line.
\<close>

theorem check_prerequisites_reports_all:
  "check_prerequisites w s =
     (if absent_tools w = []
      then (Done 0,
            s\<lparr>trace := trace s @ Info ''Checking prerequisites...'' #
                 map (\<lambda>t. Checked t (present w t)) required_tools @
                 [Success ''All prerequisites are met!''],
              missing_tools := []\<rparr>)
      else (Exit 1,
            s\<lparr>trace := trace s @ Info ''Checking prerequisites...'' #
                 map (\<lambda>t. Checked t (present w t)) required_tools @
                 [Error (''Missing required tools: '' @ join_words (absent_tools w)),
                  Echo ''Please install the missing tools and run this script again.''],
              missing_tools := absent_tools w\<rparr>))"
  by (rule check_prerequisites_eq)

theorem check_prerequisites_reports_all_witness:
  "absent_tools world_no_docker = [''docker'', ''docker-compose''] \<and>
   fst (check_prerequisites world_no_docker (initial world_no_docker)) = Exit 1 \<and>
   errors (trace (snd (check_prerequisites world_no_docker (initial world_no_docker)))) =
     [''Missing required tools: docker docker-compose''] \<and>
   fst (check_prerequisites world_ok (initial world_ok)) = Done 0 \<and>
   last (trace (snd (check_prerequisites world_ok (initial world_ok)))) =
     Success ''All prerequisites are met!''"
  using check_prerequisites_reports_all[of world_no_docker "initial world_no_docker"]
    check_prerequisites_reports_all[of world_ok "initial world_ok"]
  by (simp add: absent_tools_def required_tools_def world_no_docker_def world_ok_def
      join_words_def initial_def)

text \<open>
  C3. \<^verbatim>\<open>run_tests\<close> starts the lint step first. When the lint step ends with status 0 the
  unit-test step is started next. When the lint step ends otherwise (a non-zero status or an
  interrupt), nothing is started after it: the unit-test step is never invoked, and the
  invocation fails.
\<close>

theorem run_tests_fail_fast:
  "(outcome_of w (trace s @ [Info ''Running tests...'']) NpmRunLint = Exited 0 \<longrightarrow>
      (\<exists>oc rest. trace (snd (run_tests w s)) =
          trace s @ Info ''Running tests...'' # Ran NpmRunLint (Exited 0) # Ran NpmTest oc # rest
        \<and> (rest = [] \<or> rest = [Success ''All tests passed!'']))) \<and>
   (outcome_of w (trace s @ [Info ''Running tests...'']) NpmRunLint \<noteq> Exited 0 \<longrightarrow>
      trace (snd (run_tests w s)) =
        trace s @ [Info ''Running tests...'',
                   Ran NpmRunLint (outcome_of w (trace s @ [Info ''Running tests...'']) NpmRunLint)]
      \<and> exit_status (fst (errexit (run_tests w) s)) \<noteq> 0)"
  by (simp add: run_tests_def sh_defs Let_def exit_status_def split: outcome.splits nat.splits)

theorem run_tests_fail_fast_witness:
  "trace (snd (run_tests world_lint_fails (initial world_lint_fails))) =
     [Info ''Running tests...'', Ran NpmRunLint (Exited 2)] \<and>
   exit_status (fst (errexit (run_tests world_lint_fails) (initial world_lint_fails))) \<noteq> 0 \<and>
   (\<exists>oc rest. trace (snd (run_tests world_ok (initial world_ok))) =
      Info ''Running tests...'' # Ran NpmRunLint (Exited 0) # Ran NpmTest oc # rest)"
  using run_tests_fail_fast[of world_lint_fails "initial world_lint_fails"]
    run_tests_fail_fast[of world_ok "initial world_ok"]
  by (auto simp: world_lint_fails_def world_ok_def initial_def)

text \<open>
  C5 (as amended). \<^verbatim>\<open>test_app\<close> probes, in this order, the health endpoint, the main page and
  the info endpoint of port 3000 on the local host. It ends with status 0 exactly when each
  of the three probes ends with status 0. At the first probe that ends with a non-zero
  status it prints an error line naming that endpoint and returns status 1; at a probe that
  is interrupted the shell ends. In both cases no probe is repeated and no later probe is
  issued.
\<close>

theorem test_app_probes:
  fixes w s
  defines "o1 \<equiv> outcome_of w (trace s @ [Info ''Testing application endpoints...'']) (Curl url_health)"
  defines "o2 \<equiv> outcome_of w (after_health s) (Curl url_root)"
  defines "o3 \<equiv> outcome_of w (after_root s) (Curl url_info)"
  defines "r \<equiv> fst (test_app w s)"
  defines "evs \<equiv> news s (snd (test_app w s))"
  shows "trace (snd (test_app w s)) = trace s @ evs
    \<and> (r = Done 0) = (o1 = Exited 0 \<and> o2 = Exited 0 \<and> o3 = Exited 0)
    \<and> probes evs = (if o1 \<noteq> Exited 0 then [url_health]
                     else if o2 \<noteq> Exited 0 then [url_health, url_root]
                     else [url_health, url_root, url_info])
    \<and> errors evs =
         (if o1 \<noteq> Exited 0 then (if o1 = Interrupted then [] else [''Health endpoint failed!''])
          else if o2 \<noteq> Exited 0 then (if o2 = Interrupted then [] else [''Main page failed!''])
          else if o3 \<noteq> Exited 0 then (if o3 = Interrupted then [] else [''API endpoint failed!''])
          else [])
    \<and> r =
         (if o1 \<noteq> Exited 0 then (if o1 = Interrupted then Sigint else Done 1)
          else if o2 \<noteq> Exited 0 then (if o2 = Interrupted then Sigint else Done 1)
          else if o3 \<noteq> Exited 0 then (if o3 = Interrupted then Sigint else Done 1)
          else Done 0)"
proof (cases o1 rule: outcome_cases)
  case (failed n)
  then show ?thesis
    unfolding o1_def o2_def o3_def r_def evs_def after_root_def after_health_def news_def
    by (simp add: test_app_simps)
next
  case intr
  then show ?thesis
    unfolding o1_def o2_def o3_def r_def evs_def after_root_def after_health_def news_def
    by (simp add: test_app_simps)
next
  case ok
  note ok1 = ok
  show ?thesis
  proof (cases o2 rule: outcome_cases)
    case (failed n)
    with ok1 show ?thesis
      unfolding o1_def o2_def o3_def r_def evs_def after_root_def after_health_def news_def
      by (simp add: test_app_simps)
  next
    case intr
    with ok1 show ?thesis
      unfolding o1_def o2_def o3_def r_def evs_def after_root_def after_health_def news_def
      by (simp add: test_app_simps)
  next
    case ok
    note ok2 = ok
    show ?thesis
    proof (cases o3 rule: outcome_cases)
      case (failed n)
      with ok1 ok2 show ?thesis
        unfolding o1_def o2_def o3_def r_def evs_def after_root_def after_health_def news_def
        by (simp add: test_app_simps)
    next
      case intr
      with ok1 ok2 show ?thesis
        unfolding o1_def o2_def o3_def r_def evs_def after_root_def after_health_def news_def
        by (simp add: test_app_simps)
    next
      case ok
      with ok1 ok2 show ?thesis
        unfolding o1_def o2_def o3_def r_def evs_def after_root_def after_health_def news_def
        by (simp add: test_app_simps)
    qed
  qed
qed

theorem test_app_probes_witness:
  "fst (test_app world_info_down (initial world_info_down)) = Done 1 \<and>
   probes (news (initial world_info_down) (snd (test_app world_info_down (initial world_info_down))))
     = [url_health, url_root, url_info] \<and>
   errors (news (initial world_info_down) (snd (test_app world_info_down (initial world_info_down))))
     = [''API endpoint failed!'']"
  using test_app_probes[of world_info_down "initial world_info_down"]
  by (simp add: world_info_down_def world_ok_def after_root_def after_health_def initial_def
      url_root_def url_health_def url_info_def split: if_splits)

text \<open>
  C5 as stated fails in the order of the probes: when every probe succeeds the order is not
  main page, health endpoint, info endpoint.
\<close>

theorem test_app_probe_order_counterexample:
  "probes (trace (snd (test_app world_ok (initial world_ok)))) \<noteq> [url_root, url_health, url_info]"
  by (simp add: test_app_simps world_ok_def initial_def)

text \<open>
  C7. For every mode other than \<^verbatim>\<open>local\<close>, \<^verbatim>\<open>docker\<close> and \<^verbatim>\<open>compose\<close>, \<^verbatim>\<open>start_app\<close> prints
  the error line \<^verbatim>\<open>Invalid mode\<close> with the mode and exits the shell with status 1. It starts
  no process and no container, and it leaves \<^verbatim>\<open>LOCAL_PID\<close> as it was: the state changes in the
  trace only, by that one line.
\<close>

theorem start_app_invalid_mode:
  "mode \<noteq> ''local'' \<Longrightarrow> mode \<noteq> ''docker'' \<Longrightarrow> mode \<noteq> ''compose'' \<Longrightarrow>
   start_app w mode s = (Exit 1, s\<lparr>trace := trace s @ [Error (''Invalid mode: '' @ mode)]\<rparr>)"
  by (simp add: start_app_def sh_defs)

theorem start_app_invalid_mode_witness:
  "''container'' \<noteq> ''local'' \<and> ''container'' \<noteq> ''docker'' \<and> ''container'' \<noteq> ''compose'' \<and>
   start_app world_ok ''container'' (initial world_ok) =
     (Exit 1, (initial world_ok)\<lparr>trace := [Error ''Invalid mode: container'']\<rparr>)"
  using start_app_invalid_mode[of "''container''" world_ok "initial world_ok"]
  by (simp add: initial_def)



text \<open>
  C6 (as amended). When no command is given (or the first argument is empty) the script
  behaves as for \<^verbatim>\<open>help\<close>: it prints the help text and its main part ends with status 0. A
  recognized command exits with status 0 exactly when no step failed (no tool was missing and
  no command whose status counts ended with a non-zero status) and no interrupt arrived. An
  unrecognized command prints an error line with the command, then the help text, and exits
  with a non-zero status; \<^verbatim>\<open>cleanup\<close> follows in every case. The help text describes every
  command of the catalogue.
\<close>

theorem dispatcher_exit_status:
  "(first_arg args = [] \<longrightarrow> script w args = script w [''help''])
   \<and> (selected args = ''help'' \<or> selected args = ''--help'' \<or> selected args = ''-h'' \<longrightarrow>
        main w args (initial w) = show_help w (initial w) \<and>
        fst (main w args (initial w)) = Done 0 \<and>
        trace (snd (main w args (initial w))) = help_text w)
   \<and> (recognized (selected args) \<longrightarrow>
        (exit_status (fst (script w args)) = 0) =
        (\<forall>e\<in>set (trace (snd (script w args))). \<not> step_failed e \<and> \<not> interrupted e))
   \<and> (\<not> recognized (selected args) \<longrightarrow>
        exit_status (fst (script w args)) \<noteq> 0 \<and>
        (\<exists>cevs. trace (snd (script w args)) =
           Error (''Unknown command: '' @ first_arg args) # help_text w @ cevs \<and>
           steps_of cevs = [Cleanup]))
   \<and> list_all (\<lambda>c. list_ex (describes c) (help_text w)) spec_catalogue"
proof (intro conjI impI)
  assume "first_arg args = []"
  then show "script w args = script w [''help'']" by (rule default_help)
next
  assume a: "selected args = ''help'' \<or> selected args = ''--help'' \<or> selected args = ''-h''"
  from dispatch_help[OF a, of w]
  show "main w args (initial w) = show_help w (initial w)"
    and "fst (main w args (initial w)) = Done 0"
    and "trace (snd (main w args (initial w))) = help_text w"
    by blast+
next
  assume "recognized (selected args)"
  then have "(exit_status (fst (script w args)) = 0) =
        (\<forall>e\<in>set (trace (snd (script w args))). \<not> failed e)"
    by (rule dispatch_recognized)
  then show "(exit_status (fst (script w args)) = 0) =
        (\<forall>e\<in>set (trace (snd (script w args))). \<not> step_failed e \<and> \<not> interrupted e)"
    by (simp add: failed_split)
next
  assume n: "\<not> recognized (selected args)"
  from dispatch_unknown[OF n, of w]
  show "exit_status (fst (script w args)) \<noteq> 0"
    and "\<exists>cevs. trace (snd (script w args)) =
           Error (''Unknown command: '' @ first_arg args) # help_text w @ cevs \<and>
           steps_of cevs = [Cleanup]"
    by blast+
next
  show "list_all (\<lambda>c. list_ex (describes c) (help_text w)) spec_catalogue"
    by (simp add: help_text_def help_lines_def spec_catalogue_def)
qed

theorem dispatcher_exit_status_witness:
  "first_arg [] = [] \<and> script world_ok [] = script world_ok [''help''] \<and>
   selected [] = ''help'' \<and>
   fst (main world_ok [] (initial world_ok)) = Done 0 \<and>
   trace (snd (main world_ok [] (initial world_ok))) ! 5 =
     Echo ''  setup          - Install dependencies and run tests'' \<and>
   recognized (selected [''build'']) \<and>
   exit_status (fst (script world_ok [''build''])) = 0 \<and>
   exit_status (fst (script world_no_docker [''build''])) \<noteq> 0 \<and>
   \<not> recognized (selected [''frobnicate'']) \<and>
   exit_status (fst (script world_ok [''frobnicate''])) \<noteq> 0 \<and>
   take 4 (trace (snd (script world_ok [''frobnicate'']))) =
     [Error ''Unknown command: frobnicate'',
      Echo ''DevOps Portfolio Project - Setup and Run Script'',
      Echo '''',
      Echo ''Usage: ./run.sh [COMMAND]''] \<and>
   trace (snd (script world_ok [''frobnicate''])) ! 13 =
     Echo ''  full           - Run full pipeline (setup + build + test + start)''"
proof -
  have a: "first_arg [] = [] \<and> script world_ok [] = script world_ok [''help'']"
    using dispatcher_exit_status[of "[]" world_ok] by (simp add: first_arg_def)
  have h: "selected [] = ''help''"
    by (simp add: selected_def first_arg_def)
  have h': "fst (main world_ok [] (initial world_ok)) = Done 0 \<and>
     trace (snd (main world_ok [] (initial world_ok))) = help_text world_ok"
    using dispatcher_exit_status[of "[]" world_ok] h by blast
  then have h2: "fst (main world_ok [] (initial world_ok)) = Done 0 \<and>
     trace (snd (main world_ok [] (initial world_ok))) ! 5 =
       Echo ''  setup          - Install dependencies and run tests''"
    by (simp add: help_text_def help_lines_def)
  have r: "recognized (selected [''build''])"
    by (simp add: selected_def first_arg_def recognized_def)
  have ok: "\<forall>e\<in>set (trace (snd (script world_ok [''build'']))). \<not> step_failed e \<and> \<not> interrupted e"
    by (simp add: selected_def first_arg_def script_def main_def initial_def
      check_prerequisites_eq absent_tools_def required_tools_def build_docker_def cleanup_def
      sh_defs world_ok_def)
  have b: "exit_status (fst (script world_ok [''build''])) = 0"
    using dispatcher_exit_status[of "[''build'']" world_ok] r ok by blast
  have ko: "\<exists>e\<in>set (trace (snd (script world_no_docker [''build'']))). step_failed e"
    by (simp add: selected_def first_arg_def script_def main_def initial_def
      check_prerequisites_eq absent_tools_def required_tools_def build_docker_def cleanup_def
      sh_defs world_ok_def world_no_docker_def)
  have c: "exit_status (fst (script world_no_docker [''build''])) \<noteq> 0"
    using dispatcher_exit_status[of "[''build'']" world_no_docker] r ko by blast
  have n: "\<not> recognized (selected [''frobnicate''])"
    by (simp add: selected_def first_arg_def recognized_def)
  have "exit_status (fst (script world_ok [''frobnicate''])) \<noteq> 0 \<and>
     (\<exists>cevs. trace (snd (script world_ok [''frobnicate''])) =
        Error (''Unknown command: '' @ first_arg [''frobnicate'']) # help_text world_ok @ cevs)"
    using dispatcher_exit_status[of "[''frobnicate'']" world_ok] n by blast
  then have d: "exit_status (fst (script world_ok [''frobnicate''])) \<noteq> 0 \<and>
     take 4 (trace (snd (script world_ok [''frobnicate'']))) =
       [Error ''Unknown command: frobnicate'',
        Echo ''DevOps Portfolio Project - Setup and Run Script'',
        Echo '''',
        Echo ''Usage: ./run.sh [COMMAND]''] \<and>
     trace (snd (script world_ok [''frobnicate''])) ! 13 =
       Echo ''  full           - Run full pipeline (setup + build + test + start)''"
    by (auto simp: first_arg_def help_text_def help_lines_def world_ok_def)
  from a h h2 r b c n d show ?thesis by blast
qed

text \<open>
  C6 as stated fails for \<^verbatim>\<open>start-local\<close>: when every step succeeds the script waits, and the
  interrupt that ends the wait makes the exit status 130 although no step failed.
\<close>

theorem start_local_interrupt_counterexample:
 "recognized (selected [''start-local'']) \<and>
  steps_of (trace (snd (script world_ctrl_c [''start-local''])))
    = [CheckPrerequisites, StartLocal, SmokeTest, Cleanup] \<and>
  filter step_failed (trace (snd (script world_ctrl_c [''start-local'']))) = [] \<and>
  exit_status (fst (script world_ctrl_c [''start-local''])) = 130"
  by (simp add: selected_def first_arg_def recognized_def script_def main_def initial_def
      check_prerequisites_eq absent_tools_def required_tools_def start_app_def test_app_def cleanup_def
      sh_defs world_ok_def world_ctrl_c_def exit_status_def)



section \<open>Properties of the web application\<close>

subsection \<open>The time stamp\<close>

lemma digit_cases:
  fixes k :: nat
  assumes "k < 10"
  shows "k = 0 \<or> k = 1 \<or> k = 2 \<or> k = 3 \<or> k = 4 \<or> k = 5 \<or> k = 6 \<or> k = 7 \<or> k = 8 \<or> k = 9"
  using assms by arith

lemma digit_value_at: "k < 10 \<Longrightarrow> digit_value (''0123456789'' ! k) = Some k"
  by (drule digit_cases) (elim disjE; simp add: digit_value_def)

lemma digit_at_not_sign: "k < 10 \<Longrightarrow> ''0123456789'' ! k \<noteq> CHR ''+'' \<and> ''0123456789'' ! k \<noteq> CHR ''-''"
  by (drule digit_cases) (elim disjE; simp)

lemma digit_value_digit_char: "digit_value (digit_char n) = Some (n mod 10)"
  unfolding digit_char_def by (rule digit_value_at) simp

lemma digit_char_not_sign: "digit_char n \<noteq> CHR ''+''" "digit_char n \<noteq> CHR ''-''"
  unfolding digit_char_def using digit_at_not_sign[of "n mod 10"] by simp_all

lemma number_pad: "number k (pad k n @ r) = Some (n mod 10 ^ k, r)"
proof (induction k)
  case 0
  show ?case by simp
next
  case (Suc k)
  have "n mod (10 ^ k * 10) = 10 ^ k * (n div 10 ^ k mod 10) + n mod 10 ^ k"
    by (rule mod_mult2_eq)
  then have e: "n div 10 ^ k mod 10 * 10 ^ k + n mod 10 ^ k = n mod 10 ^ Suc k"
    by (simp add: mult.commute)
  have "number (Suc k) (pad (Suc k) n @ r) =
      (case number k (pad k n @ r) of None \<Rightarrow> None
       | Some (m, r') \<Rightarrow> Some (n div 10 ^ k mod 10 * 10 ^ k + m, r'))"
    by (simp only: pad.simps append_Cons number.simps digit_value_digit_char option.case)
  also have "\<dots> = Some (n div 10 ^ k mod 10 * 10 ^ k + n mod 10 ^ k, r)"
    by (simp only: Suc.IH option.case prod.case)
  finally show ?case by (simp only: e)
qed

lemma ranged_pad:
  "lo \<le> n mod 10 ^ k \<Longrightarrow> n mod 10 ^ k \<le> hi \<Longrightarrow> ranged k lo hi (pad k n @ r) = Some r"
  by (simp add: ranged_def number_pad del: pad.simps)

lemma ranged_pad_small:
  "lo \<le> n \<Longrightarrow> n \<le> hi \<Longrightarrow> n < 10 ^ k \<Longrightarrow> ranged k lo hi (pad k n @ r) = Some r"
  by (simp add: ranged_pad del: pad.simps)

lemma lit_Cons: "lit c (c # r) = Some r"
  by (simp add: lit_def)

lemma pad4_head: "pad 4 n = digit_char (n div 10 ^ 3) # pad 3 n"
  by (simp only: numeral_eq_Suc pred_numeral_simps pad.simps Num.BitM.simps)

lemma year_part_year_string: "year_part (year_string y @ r) = Some r"
proof (cases "0 \<le> y \<and> y \<le> 9999")
  case True
  have "nat y mod 10 ^ 4 < 10 ^ 4" by simp
  then have "nat y mod 10 ^ 4 \<le> 9999" by simp
  then have a: "ranged 4 0 9999 (pad 4 (nat y) @ r) = Some r"
    by (intro ranged_pad) simp_all
  have "year_part (pad 4 (nat y) @ r) = ranged 4 0 9999 (pad 4 (nat y) @ r)"
    unfolding year_part_def pad4_head
    by (simp add: digit_char_not_sign del: pad.simps)
  with a True show ?thesis by (simp add: year_string_def del: pad.simps)
next
  case False
  have "nat \<bar>y\<bar> mod 10 ^ 6 < 10 ^ 6" by simp
  then have "nat \<bar>y\<bar> mod 10 ^ 6 \<le> 999999" by simp
  then have "ranged 6 0 999999 (pad 6 (nat \<bar>y\<bar>) @ r) = Some r"
    by (intro ranged_pad) simp_all
  with False show ?thesis
    by (simp add: year_part_def year_string_def del: pad.simps)
qed

lemma month_day_bounds:
  "d < sum_list ls \<Longrightarrow> \<forall>l\<in>set ls. l \<le> 31 \<Longrightarrow>
   fst (month_day ls m d) < m + length ls \<and> snd (month_day ls m d) < 31"
proof (induction ls arbitrary: m d)
  case Nil
  then show ?case by simp
next
  case (Cons l ls)
  show ?case
  proof (cases "d < l")
    case True
    with Cons.prems show ?thesis by auto
  next
    case False
    with Cons.prems have "d - l < sum_list ls" "\<forall>l\<in>set ls. l \<le> 31" by auto
    from Cons.IH[OF this, of "Suc m"] False show ?thesis by simp
  qed
qed

lemma capped_rest:
  fixes x b k N :: nat
  assumes "x \<le> N" and "0 < b"
  shows "x - min k (x div b) * b \<le> max (b - 1) (N - k * b)"
proof (cases "x div b \<le> k")
  case True
  then have "x - min k (x div b) * b = x mod b"
    by (simp add: min_def minus_div_mult_eq_mod)
  moreover have "x mod b < b" using assms(2) by simp
  ultimately show ?thesis by simp
next
  case False
  then have "x - min k (x div b) * b = x - k * b" by (simp add: min_def)
  also have "\<dots> \<le> N - k * b" using assms(1) by simp
  finally show ?thesis by simp
qed

lemma day_of_year_bound:
  fixes doe :: nat
  assumes "doe < 146097"
  defines "doc \<equiv> doe - min 3 (doe div 36524) * 36524"
  defines "doq \<equiv> doc - min 24 (doc div 1461) * 1461"
  shows "doq - min 3 (doq div 365) * 365 < 366"
proof -
  have "doe \<le> 146096" using assms(1) by simp
  from capped_rest[OF this, of 36524 3] have 1: "doc \<le> 36524" unfolding doc_def by simp
  from capped_rest[OF 1, of 1461 24] have 2: "doq \<le> 1460" unfolding doq_def by simp
  from capped_rest[OF 2, of 365 3] show ?thesis by simp
qed

lemma civil_bounds:
  "1 \<le> fst (snd (civil day)) \<and> fst (snd (civil day)) \<le> 12 \<and>
   1 \<le> snd (snd (civil day)) \<and> snd (snd (civil day)) \<le> 31"
proof -
  define doe where "doe = nat ((day + 719468) mod 146097)"
  define doc where "doc = doe - min 3 (doe div 36524) * 36524"
  define doq where "doq = doc - min 24 (doc div 1461) * 1461"
  define doy where "doy = doq - min 3 (doq div 365) * 365"
  have "doe < 146097" unfolding doe_def by simp
  then have "doy < 366" unfolding doy_def doq_def doc_def by (rule day_of_year_bound)
  then have "doy < sum_list months_from_march" by (simp add: months_from_march_def)
  moreover have "\<forall>l\<in>set months_from_march. l \<le> 31" by (simp add: months_from_march_def)
  ultimately have b: "fst (month_day months_from_march 0 doy) < 0 + length months_from_march \<and>
      snd (month_day months_from_march 0 doy) < 31"
    by (rule month_day_bounds)
  obtain mp d where md: "month_day months_from_march 0 doy = (mp, d)"
    by (cases "month_day months_from_march 0 doy")
  with b have mp: "mp < 12" and d: "d < 31" by (simp_all add: months_from_march_def)
  have c: "civil day = (if mp < 10 then ((day + 719468) div 146097) * 400
        + int (min 3 (doe div 36524) * 100 + min 24 (doc div 1461) * 4 + min 3 (doq div 365))
       else ((day + 719468) div 146097) * 400
        + int (min 3 (doe div 36524) * 100 + min 24 (doc div 1461) * 4 + min 3 (doq div 365)) + 1,
      if mp < 10 then mp + 3 else mp - 9, d + 1)"
    unfolding civil_def Let_def doe_def[symmetric] doc_def[symmetric] doq_def[symmetric]
      doy_def[symmetric] md prod.case ..
  show ?thesis unfolding c using mp d by (simp add: not_less) arith
qed

lemma to_iso_string_shape: "is_iso8601 (to_iso_string t)"
proof -
  obtain y m d where c: "civil (t div 86400000) = (y, m, d)"
    by (cases "civil (t div 86400000)") auto
  with civil_bounds[of "t div 86400000"] have m: "1 \<le> m" "m \<le> 12" and d: "1 \<le> d" "d \<le> 31"
    by simp_all
  define ms where "ms = nat (t mod 86400000)"
  have "ms < 86400000" unfolding ms_def by simp
  then have "ms div 3600000 < 24" by (simp add: div_less_iff_less_mult)
  then have h: "ms div 3600000 \<le> 23" by simp
  have "ms div 60000 mod 60 < 60" "ms div 1000 mod 60 < 60" "ms mod 1000 < 1000"
    by simp_all
  then have mi: "ms div 60000 mod 60 \<le> 59" and se: "ms div 1000 mod 60 \<le> 59"
    and ml: "ms mod 1000 \<le> 999"
    by simp_all
  have s: "to_iso_string t = year_string y @ CHR ''-'' # pad 2 m @ CHR ''-'' # pad 2 d @ CHR ''T'' #
         pad 2 (ms div 3600000) @ CHR '':'' # pad 2 (ms div 60000 mod 60) @ CHR '':'' #
         pad 2 (ms div 1000 mod 60) @ CHR ''.'' # pad 3 (ms mod 1000) @ ''Z''"
    unfolding to_iso_string_def c Let_def prod.case ms_def[symmetric] by simp
  have r2: "\<And>lo hi n r. lo \<le> n \<Longrightarrow> n \<le> hi \<Longrightarrow> hi \<le> 99 \<Longrightarrow> ranged 2 lo hi (pad 2 n @ r) = Some r"
    by (rule ranged_pad_small) simp_all
  have r3: "\<And>n r. n \<le> 999 \<Longrightarrow> ranged 3 0 999 (pad 3 n @ r) = Some r"
    by (rule ranged_pad_small) simp_all
  show ?thesis
    unfolding is_iso8601_def s
    using m d h mi se ml
    by (simp add: year_part_year_string lit_Cons r2 r3 del: pad.simps)
qed

lemma pad2: "pad 2 n = [digit_char (n div 10), digit_char n]"
  by (simp add: numeral_2_eq_2)

lemma pad3: "pad 3 n = [digit_char (n div 100), digit_char (n div 10), digit_char n]"
  by (simp add: numeral_3_eq_3)

lemma pad4: "pad 4 n = [digit_char (n div 1000), digit_char (n div 100), digit_char (n div 10), digit_char n]"
  unfolding pad4_head pad3 by simp

lemma civil_example: "civil 19758 = (2024, 2, 5)"
  by (simp add: civil_def Let_def months_from_march_def)

lemma iso_example: "to_iso_string 1707129000000 = ''2024-02-05T10:30:00.000Z''"
proof -
  have d: "(1707129000000::int) div 86400000 = 19758" by simp
  have m: "nat ((1707129000000::int) mod 86400000) = 37800000" by simp
  show ?thesis
    unfolding to_iso_string_def d m civil_example Let_def prod.case
    by (simp add: year_string_def pad2 pad3 pad4 digit_char_def del: pad.simps)
qed

subsection \<open>The stack\<close>

lemma matches_health_not_root: "matches ''/health'' p \<Longrightarrow> \<not> matches ''/'' p"
  by (auto simp: matches_def Let_def)

lemma res_send_not_ok:
  "\<not> (200 \<le> status_code r \<and> status_code r < 300) \<Longrightarrow> status_code r \<noteq> 304 \<Longrightarrow>
   res_send req r = for_method req r"
  by (auto simp: res_send_def)

lemma app_unmatched:
  assumes "serve_static h req = Next" "req_body req \<noteq> BadJson"
    "\<not> (handles_get (req_method req) \<and>
        (matches ''/'' (req_path req) \<or> matches ''/health'' (req_path req) \<or>
         matches ''/api/info'' (req_path req)))"
  shows "app h req =
    for_method req \<lparr>status_code = 404, payload = Json [(''error'', ''Route not found'')]\<rparr>"
  using assms
  by (auto simp: app_def stack_def helmet_def express_json_def not_found_def res_send_not_ok
      split: body_kind.splits)

lemma app_bad_json:
  assumes "serve_static h req = Next" "req_body req = BadJson"
  shows "app h req =
    for_method req \<lparr>status_code = 500, payload = Json [(''error'', ''Something went wrong!'')]\<rparr>"
  using assms
  by (simp add: app_def stack_def helmet_def express_json_def error_handler_def res_send_not_ok)

lemma app_never_html:
  assumes "serve_static h req = Next"
  shows "payload (app h req) \<noteq> Html t"
  using assms
  by (auto simp: app_def stack_def helmet_def express_json_def health_handler_def
      info_handler_def root_handler_def not_found_def error_handler_def for_method_def
      res_send_def split: body_kind.splits)

subsection \<open>The claims about the web application\<close>

text \<open>
  C8 (as amended). Every \<^verbatim>\<open>GET\<close> request for \<^verbatim>\<open>/health\<close> that reaches the route (the static
  middleware passes it on and its JSON body, if any, parses) is answered with status 200 and
  a JSON body with exactly the fields \<^verbatim>\<open>status\<close>, \<^verbatim>\<open>timestamp\<close> and \<^verbatim>\<open>version\<close>, in this order,
  unless the request is a conditional one that Express finds fresh for that body (as with
  \<^verbatim>\<open>If-None-Match: *\<close>), which \<^verbatim>\<open>res.send\<close> answers with status 304 and no body. In the body
  \<^verbatim>\<open>status\<close> is \<^verbatim>\<open>healthy\<close>, \<^verbatim>\<open>timestamp\<close> is the string \<^verbatim>\<open>toISOString\<close> gives for the time of
  the request, which is an ISO-8601 date and time in UTC, and \<^verbatim>\<open>version\<close> is the environment
  variable \<^verbatim>\<open>npm_package_version\<close> as it is when it is set and not empty, and \<^verbatim>\<open>1.0.0\<close>
  otherwise.
\<close>

theorem health_response:
  assumes "serve_static h req = Next" and "req_body req \<noteq> BadJson"
    and "req_method req = GET" and "matches ''/health'' (req_path req)"
  defines "answer \<equiv> Json
         [(''status'', ''healthy''),
          (''timestamp'', to_iso_string (now_ms h)),
          (''version'',
             (case env h ''npm_package_version'' of
                None \<Rightarrow> ''1.0.0''
              | Some v \<Rightarrow> if v = [] then ''1.0.0'' else v))]"
  shows "app h req =
      (if req_fresh req answer then \<lparr>status_code = 304, payload = NoContent\<rparr>
       else \<lparr>status_code = 200, payload = answer\<rparr>)
    \<and> is_iso8601 (to_iso_string (now_ms h))"
  using assms(1-4) matches_health_not_root[of "req_path req"] to_iso_string_shape[of "now_ms h"]
  unfolding answer_def
  by (auto simp: app_def stack_def helmet_def express_json_def health_handler_def
      handles_get_def for_method_def res_send_def or_default_def
      split: body_kind.splits option.splits)

theorem health_response_witness:
  "serve_static host_plain get_health = Next \<and> req_body get_health \<noteq> BadJson \<and>
   req_method get_health = GET \<and> matches ''/health'' (req_path get_health) \<and>
   app host_plain get_health = \<lparr>status_code = 200,
       payload = Json
         [(''status'', ''healthy''),
          (''timestamp'', ''2024-02-05T10:30:00.000Z''),
          (''version'', ''1.0.0'')]\<rparr> \<and>
   is_iso8601 ''2024-02-05T10:30:00.000Z'' \<and>
   is_semver ''1.0.0'' \<and>
   app host_plain get_health_if_none_match = \<lparr>status_code = 304, payload = NoContent\<rparr>"
proof -
  have n: "now_ms host_plain = 1707129000000" by (simp add: host_plain_def)
  have a: "serve_static host_plain get_health = Next \<and> req_body get_health \<noteq> BadJson \<and>
      req_method get_health = GET \<and> matches ''/health'' (req_path get_health)"
    by (simp add: host_plain_def get_health_def matches_def lower_char_def)
  have b: "serve_static host_plain get_health_if_none_match = Next \<and>
      req_body get_health_if_none_match \<noteq> BadJson \<and>
      req_method get_health_if_none_match = GET \<and>
      matches ''/health'' (req_path get_health_if_none_match)"
    by (simp add: host_plain_def get_health_if_none_match_def matches_def lower_char_def)
  have s: "is_semver ''1.0.0''" by (simp add: is_semver_def is_digit_def)
  from a health_response[of host_plain get_health]
  have c: "app host_plain get_health = \<lparr>status_code = 200,
       payload = Json
         [(''status'', ''healthy''),
          (''timestamp'', ''2024-02-05T10:30:00.000Z''),
          (''version'', ''1.0.0'')]\<rparr> \<and> is_iso8601 ''2024-02-05T10:30:00.000Z''"
    by (simp add: n iso_example) (simp add: host_plain_def get_health_def)
  from b health_response[of host_plain get_health_if_none_match]
  have d: "app host_plain get_health_if_none_match = \<lparr>status_code = 304, payload = NoContent\<rparr>"
    by (simp add: get_health_if_none_match_def)
  from a c s d show ?thesis by blast
qed

text \<open>
  C8 as stated fails three times: a \<^verbatim>\<open>GET /health\<close> request whose JSON body does not parse is
  answered with status 500, an application started with \<^verbatim>\<open>npm_package_version=banana\<close>
  reports the version \<^verbatim>\<open>banana\<close>, which is not a semantic version, and a \<^verbatim>\<open>GET /health\<close>
  request with \<^verbatim>\<open>If-None-Match: *\<close> is answered with status 304.
\<close>

theorem health_counterexample:
  "status_code (app host_plain get_health_bad_body) = 500 \<and>
   json_field ''version'' (app host_banana get_health) = Some ''banana'' \<and>
   \<not> is_semver ''banana'' \<and>
   status_code (app host_plain get_health_if_none_match) = 304"
  by (simp add: app_def stack_def helmet_def express_json_def health_handler_def
      error_handler_def handles_get_def for_method_def res_send_def or_default_def matches_def
      lower_char_def host_plain_def host_banana_def get_health_def get_health_bad_body_def
      get_health_if_none_match_def json_field_def is_semver_def is_digit_def)

text \<open>
  C10 (as amended). Every request that the static middleware passes on and that matches
  none of the routes \<^verbatim>\<open>GET /\<close>, \<^verbatim>\<open>GET /health\<close> and \<^verbatim>\<open>GET /api/info\<close> is answered with status
  404 and the JSON body \<^verbatim>\<open>{"error":"Route not found"}\<close> when its JSON body, if any, parses, and
  with status 500 and the JSON body \<^verbatim>\<open>{"error":"Something went wrong!"}\<close> when it does not.
  The body is left out of the answer to a \<^verbatim>\<open>HEAD\<close> request. In neither case does the request
  reach the HTML error page of Express.
\<close>

theorem unknown_route_response:
  assumes "serve_static h req = Next"
    and "\<not> (handles_get (req_method req) \<and>
        (matches ''/'' (req_path req) \<or> matches ''/health'' (req_path req) \<or>
         matches ''/api/info'' (req_path req)))"
  shows "app h req =
      for_method req
        (if req_body req = BadJson
         then \<lparr>status_code = 500, payload = Json [(''error'', ''Something went wrong!'')]\<rparr>
         else \<lparr>status_code = 404, payload = Json [(''error'', ''Route not found'')]\<rparr>)
    \<and> (\<forall>t. payload (app h req) \<noteq> Html t)"
  using assms app_unmatched[of h req] app_bad_json[of h req] app_never_html[of h req]
  by (cases "req_body req = BadJson") simp_all

theorem unknown_route_response_witness:
  "serve_static host_plain get_nonexistent = Next \<and>
   app host_plain get_nonexistent =
     \<lparr>status_code = 404, payload = Json [(''error'', ''Route not found'')]\<rparr>"
  using unknown_route_response[of host_plain get_nonexistent]
  by (simp add: host_plain_def get_nonexistent_def matches_def lower_char_def handles_get_def
      for_method_def)

text \<open>
  C10 as stated fails for a request to an unknown path whose JSON body does not parse: the
  answer is not 404.
\<close>

theorem unknown_route_bad_body_counterexample:
  "req_path post_nonexistent_bad_body = ''/nonexistent'' \<and>
   serve_static host_plain post_nonexistent_bad_body = Next \<and>
   app host_plain post_nonexistent_bad_body =
     \<lparr>status_code = 500, payload = Json [(''error'', ''Something went wrong!'')]\<rparr>"
  by (simp add: app_def stack_def helmet_def express_json_def error_handler_def for_method_def
      res_send_def host_plain_def post_nonexistent_bad_body_def)

end
